theory Spec2Isabelle
  imports Main "HOL-Library.Char_ord" "HOL-Library.List_Lexorder"
begin

section \<open>Dates\<close>

text \<open>
  A JavaScript \<open>Date\<close> holds a time value: a whole number of milliseconds, or NaN for
  an Invalid Date. It is modelled as \<open>int option\<close>, \<open>None\<close> being the Invalid Date.
  The time value is read on the local wall clock of a zone with a constant offset (the
  offset is folded into the number, so day, hour and minute are plain quotients);
  daylight-saving changes and the finite range of JavaScript dates are outside the model.
  Comparing two dates with \<open><\<close> or \<open>></\<close> compares the time values, and every
  comparison with NaN is false.
\<close>

type_synonym Date = "int option"

definition date_lt :: "Date \<Rightarrow> Date \<Rightarrow> bool" where
  "date_lt a b = (case a of None \<Rightarrow> False
                  | Some x \<Rightarrow> (case b of None \<Rightarrow> False | Some y \<Rightarrow> x < y))"

definition date_gt :: "Date \<Rightarrow> Date \<Rightarrow> bool" where
  "date_gt a b = date_lt b a"

text \<open>\<open>new Date(d.getTime() + k)\<close>: NaN plus anything is NaN.\<close>

definition addMs :: "Date \<Rightarrow> int \<Rightarrow> Date" where
  "addMs d k = (case d of None \<Rightarrow> None | Some t \<Rightarrow> Some (t + k))"

definition getHours :: "int \<Rightarrow> int" where
  "getHours t = (t div 3600000) mod 24"

definition getMinutes :: "int \<Rightarrow> int" where
  "getMinutes t = (t div 60000) mod 60"

text \<open>
  The setters keep the other components of the date and accept values beyond the
  component's range, which carry over (\<open>setMinutes(60)\<close> is the next hour,
  \<open>setHours(24, 0, 0, 0)\<close> is midnight of the following day).
\<close>

definition setHours :: "Date \<Rightarrow> int \<Rightarrow> int \<Rightarrow> int \<Rightarrow> int \<Rightarrow> Date" where
  "setHours d h m s ms = (case d of None \<Rightarrow> None
     | Some t \<Rightarrow> Some (t - t mod 86400000 + h * 3600000 + m * 60000 + s * 1000 + ms))"

definition setMinutes :: "Date \<Rightarrow> int \<Rightarrow> Date" where
  "setMinutes d m = (case d of None \<Rightarrow> None
     | Some t \<Rightarrow> Some (t - t mod 3600000 + m * 60000 + t mod 60000))"

definition setSeconds :: "Date \<Rightarrow> int \<Rightarrow> Date" where
  "setSeconds d s = (case d of None \<Rightarrow> None
     | Some t \<Rightarrow> Some (t - t mod 60000 + s * 1000 + t mod 1000))"

definition setMilliseconds :: "Date \<Rightarrow> int \<Rightarrow> Date" where
  "setMilliseconds d ms = (case d of None \<Rightarrow> None
     | Some t \<Rightarrow> Some (t - t mod 1000 + ms))"


section \<open>Time utilities\<close>

text \<open>
  \<open>ceil15\<close>: on an Invalid Date \<open>getMinutes\<close> is NaN, \<open>NaN % 15 === 0\<close> is false and
  the setters leave the copy invalid.
\<close>

definition ceil15 :: "Date \<Rightarrow> Date" where
  "ceil15 date = (case date of None \<Rightarrow> None
     | Some t \<Rightarrow>
        (let minutes = getMinutes t;
             remainder = minutes mod 15
         in if remainder = 0 then Some t
            else setMilliseconds
                   (setSeconds (setMinutes (Some t) (minutes + (15 - remainder))) 0) 0))"

text \<open>
  \<open>formatTime\<close> is \<open>date.toTimeString().slice(0, 5)\<close>: the zero-padded hour, a colon and
  the zero-padded minute; for an Invalid Date the text is "Invalid Date" and its first
  five characters are returned.
\<close>

definition digit_char :: "int \<Rightarrow> char" where
  "digit_char n = char_of (48 + n)"

definition pad2 :: "int \<Rightarrow> string" where
  "pad2 n = [digit_char (n div 10), digit_char (n mod 10)]"

definition formatTime :: "Date \<Rightarrow> string" where
  "formatTime date = (case date of None \<Rightarrow> ''Inval''
     | Some t \<Rightarrow> pad2 (getHours t) @ '':'' @ pad2 (getMinutes t))"

text \<open>
  \<open>parseTime\<close> is \<open>timeStr.split(':').map(Number)\<close>, the first two numbers going to
  \<open>setHours(hours, minutes, 0, 0)\<close> on a copy of the base date. \<open>Number\<close> is modelled on
  strings of decimal digits (the empty string is 0, as in JavaScript); every other string
  is NaN here, although JavaScript also reads signs, blanks, fractions, exponents and
  hexadecimal numbers. A missing second component is \<open>undefined\<close>, hence NaN, and a NaN
  argument makes the date invalid.
\<close>

definition digit_val :: "char \<Rightarrow> int option" where
  "digit_val c =
     (let code = of_char c :: int
      in if 48 \<le> code \<and> code \<le> 57 then Some (code - 48) else None)"

fun digits_val :: "int \<Rightarrow> string \<Rightarrow> int option" where
  "digits_val acc [] = Some acc"
| "digits_val acc (c # cs) =
     (case digit_val c of None \<Rightarrow> None | Some d \<Rightarrow> digits_val (10 * acc + d) cs)"

definition Number :: "string \<Rightarrow> int option" where
  "Number s = digits_val 0 s"

fun split_on :: "char \<Rightarrow> string \<Rightarrow> string \<Rightarrow> string list" where
  "split_on sep acc [] = [rev acc]"
| "split_on sep acc (c # cs) =
     (if c = sep then rev acc # split_on sep [] cs else split_on sep (c # acc) cs)"

definition split :: "string \<Rightarrow> char \<Rightarrow> string list" where
  "split s sep = split_on sep [] s"

definition parseTime :: "string \<Rightarrow> Date \<Rightarrow> Date" where
  "parseTime timeStr baseDate =
     (case map Number (split timeStr (CHR '':'')) of
        Some hours # Some minutes # _ \<Rightarrow> setHours baseDate hours minutes 0 0
      | _ \<Rightarrow> None)"

definition hasOverlap :: "Date \<Rightarrow> Date \<Rightarrow> Date \<Rightarrow> Date \<Rightarrow> bool" where
  "hasOverlap start1 end1 start2 end2 = (date_lt start1 end2 \<and> date_gt end1 start2)"


section \<open>Data model\<close>

text \<open>
  Field names carry a prefix for the record they belong to (\<open>b_\<close> for
  \<open>ScheduleBlock\<close>, \<open>s_\<close> for \<open>TimeSlot\<close>, \<open>t_\<close> for \<open>Task\<close>, \<open>e_\<close> for a fixed event
  of the request body). The \<open>type\<close> strings form the datatype \<open>kind\<close>. The titles
  and warnings the code writes in Japanese are constructors of \<open>title\<close> and
  \<open>warning\<close>; \<open>Text\<close> is a text taken from the caller or an ASCII literal. Of a task
  only the fields that the generator reads are kept.
\<close>

datatype category = Future | Now | Maintain | Chore

datatype priority = High | Medium | Low

datatype kind = KFixed | KLunch | KDinner | KReply | KFamily | KTest | KCategory category

datatype title =
    Text string
  | ReplyTitle
  | LunchTitle
  | LunchSlotTitle
  | DinnerTitle
  | DinnerSlotTitle
  | FamilyTitle
  | TaskSlotTitle string int

datatype warning = LunchWarning | DinnerWarning | TaskWarning string int

record Task =
  t_title :: string
  t_category :: category
  t_minutes :: int
  t_priority :: "priority option"

record FixedEvent =
  e_start :: string
  e_end :: string
  e_title :: string

record TimeSlot =
  s_start :: string
  s_end :: string
  s_title :: title
  s_type :: kind
  s_color :: string

record ScheduleBlock =
  b_start :: Date
  b_end :: Date
  b_title :: title
  b_type :: kind
  b_minutes :: "int option"


section \<open>Conflict detector and slot finders\<close>

definition checkConflict :: "ScheduleBlock \<Rightarrow> ScheduleBlock list \<Rightarrow> bool" where
  "checkConflict block blocks =
     list_ex (\<lambda>b. hasOverlap (b_start block) (b_end block) (b_start b) (b_end b)) blocks"

text \<open>
  \<open>trySlot\<close> is the closure inside \<open>findAvailableSlot\<close>; what it captures is passed
  ahead of its own argument. An optional bound that is absent is \<open>None\<close>; a bound that
  is present is a \<open>Date\<close> object, which is truthy even when invalid.
\<close>

definition trySlot ::
  "int \<Rightarrow> ScheduleBlock list \<Rightarrow> Date option \<Rightarrow> Date option \<Rightarrow> Date \<Rightarrow> bool" where
  "trySlot duration blocks minTime maxTime start =
     (if (case minTime of None \<Rightarrow> False | Some m \<Rightarrow> date_lt start m) then False
      else
        (let end' = addMs start (duration * 60000)
         in if (case maxTime of None \<Rightarrow> False | Some m \<Rightarrow> date_gt end' m) then False
            else \<not> checkConflict
                     \<lparr>b_start = start, b_end = end', b_title = Text ''test'',
                      b_type = KTest, b_minutes = Some duration\<rparr> blocks))"

function forward_scan :: "(Date \<Rightarrow> bool) \<Rightarrow> Date \<Rightarrow> int \<Rightarrow> Date option" where
  "forward_scan ok preferredStart offset =
     (if offset \<le> 90 then
        (let newStart = addMs preferredStart (offset * 60000)
         in if ok newStart then Some newStart
            else forward_scan ok preferredStart (offset + 15))
      else None)"
  by pat_completeness auto
termination
  by (relation "measure (\<lambda>(ok, p, offset). nat (91 - offset))") auto

function backward_scan :: "(Date \<Rightarrow> bool) \<Rightarrow> Date \<Rightarrow> int \<Rightarrow> Date option" where
  "backward_scan ok preferredStart offset =
     (if offset \<le> 180 then
        (let newStart = addMs preferredStart (- (offset * 60000))
         in if ok newStart then Some newStart
            else backward_scan ok preferredStart (offset + 15))
      else None)"
  by pat_completeness auto
termination
  by (relation "measure (\<lambda>(ok, p, offset). nat (181 - offset))") auto

definition findAvailableSlot ::
  "Date \<Rightarrow> int \<Rightarrow> ScheduleBlock list \<Rightarrow> Date option \<Rightarrow> Date option \<Rightarrow> Date option" where
  "findAvailableSlot preferredStart duration blocks minTime maxTime =
     (if trySlot duration blocks minTime maxTime preferredStart then Some preferredStart
      else
        (case forward_scan (trySlot duration blocks minTime maxTime) preferredStart 15 of
           Some newStart \<Rightarrow> Some newStart
         | None \<Rightarrow> backward_scan (trySlot duration blocks minTime maxTime) preferredStart 15))"

definition candidates :: "string list" where
  "candidates = [''21:00'', ''20:30'', ''21:30'', ''20:00'', ''22:00'', ''23:00'']"

fun dinner_scan :: "Date \<Rightarrow> Date \<Rightarrow> ScheduleBlock list \<Rightarrow> string list \<Rightarrow> Date option" where
  "dinner_scan maxTime baseDate blocks [] = None"
| "dinner_scan maxTime baseDate blocks (timeStr # rest) =
     (let start = parseTime timeStr baseDate;
          end' = addMs start (60 * 60000)
      in if date_gt end' maxTime then dinner_scan maxTime baseDate blocks rest
         else if \<not> checkConflict
                     \<lparr>b_start = start, b_end = end', b_title = Text ''dinner'',
                      b_type = KDinner, b_minutes = Some 60\<rparr> blocks
              then Some start
              else dinner_scan maxTime baseDate blocks rest)"

definition findDinnerSlot :: "Date \<Rightarrow> ScheduleBlock list \<Rightarrow> Date option" where
  "findDinnerSlot baseDate blocks =
     dinner_scan (parseTime ''24:00'' baseDate) baseDate blocks candidates"


section \<open>Schedule generation\<close>

text \<open>
  The handler of \<open>POST /api/schedule/generate\<close>, as a function of the clock reading
  \<open>t0\<close> (a valid date), the fixed events of the request body and the rows the task
  query returns (already filtered and ordered by the database). The state that the
  handler mutates is the record \<open>gstate\<close>: the working set \<open>blocks\<close>, the output
  \<open>result\<close> and the \<open>warnings\<close>.
\<close>

record gstate =
  blocks :: "ScheduleBlock list"
  result :: "TimeSlot list"
  warnings :: "warning list"

text \<open>\<open>Math.round(x / 60000)\<close> on whole numbers: the floor of the quotient plus one half.\<close>

definition round_minutes :: "Date \<Rightarrow> Date \<Rightarrow> int option" where
  "round_minutes end' start =
     (case end' of None \<Rightarrow> None
      | Some x \<Rightarrow> (case start of None \<Rightarrow> None
                   | Some y \<Rightarrow> Some ((2 * (x - y) + 60000) div 120000)))"

definition fixed_block :: "Date \<Rightarrow> FixedEvent \<Rightarrow> ScheduleBlock" where
  "fixed_block baseDate event =
     \<lparr>b_start = parseTime (e_start event) baseDate,
      b_end = parseTime (e_end event) baseDate,
      b_title = Text (e_title event),
      b_type = KFixed,
      b_minutes = round_minutes (parseTime (e_end event) baseDate)
                                (parseTime (e_start event) baseDate)\<rparr>"

definition fixed_slot :: "FixedEvent \<Rightarrow> TimeSlot" where
  "fixed_slot event =
     \<lparr>s_start = e_start event, s_end = e_end event, s_title = Text (e_title event),
      s_type = KFixed, s_color = ''#ef4444''\<rparr>"

definition place_fixed :: "Date \<Rightarrow> FixedEvent list \<Rightarrow> gstate" where
  "place_fixed baseDate fixedEvents =
     \<lparr>blocks = map (fixed_block baseDate) fixedEvents,
      result = map fixed_slot fixedEvents,
      warnings = []\<rparr>"

definition reply_step :: "Date \<Rightarrow> Date \<Rightarrow> Date \<Rightarrow> gstate \<Rightarrow> gstate" where
  "reply_step planStart endOfDay currentReplyTime st =
     (let replyEnd = addMs currentReplyTime (15 * 60000);
          replyBlock = \<lparr>b_start = currentReplyTime, b_end = replyEnd,
                        b_title = ReplyTitle, b_type = KReply, b_minutes = Some 15\<rparr>;
          replyBlock =
            (if checkConflict replyBlock (blocks st) then
               (case findAvailableSlot currentReplyTime 15 (blocks st)
                       (Some planStart) (Some endOfDay) of
                  Some availableStart \<Rightarrow>
                    replyBlock\<lparr>b_start := availableStart,
                                b_end := addMs availableStart (15 * 60000)\<rparr>
                | None \<Rightarrow> replyBlock)
             else replyBlock)
      in if \<not> checkConflict replyBlock (blocks st) then
           st\<lparr>blocks := blocks st @ [replyBlock],
              result := result st @
                [\<lparr>s_start = formatTime (b_start replyBlock),
                  s_end = formatTime (b_end replyBlock),
                  s_title = ReplyTitle, s_type = KReply, s_color = ''#3b82f6''\<rparr>]\<rparr>
         else st)"

function reply_loop :: "Date \<Rightarrow> Date \<Rightarrow> Date \<Rightarrow> gstate \<Rightarrow> gstate" where
  "reply_loop planStart endOfDay currentReplyTime st =
     (if date_lt currentReplyTime endOfDay then
        reply_loop planStart endOfDay (addMs currentReplyTime (3 * 60 * 60000))
          (reply_step planStart endOfDay currentReplyTime st)
      else st)"
  by pat_completeness auto
termination
  by (relation "measure (\<lambda>(p, e, c, st).
        case e of None \<Rightarrow> 0 | Some y \<Rightarrow> (case c of None \<Rightarrow> 0 | Some x \<Rightarrow> nat (y - x)))")
     (auto simp: date_lt_def addMs_def split: option.splits)

definition place_lunch :: "Date \<Rightarrow> Date \<Rightarrow> Date \<Rightarrow> gstate \<Rightarrow> gstate" where
  "place_lunch t0 planStart baseDate st =
     (let lunchPreferred = addMs t0 (6 * 60 * 60000);
          lunchStart = ceil15 lunchPreferred;
          dinnerTimeStart = parseTime ''20:00'' baseDate
      in case findAvailableSlot lunchStart 60 (blocks st)
                (Some planStart) (Some dinnerTimeStart) of
           Some availableLunchStart \<Rightarrow>
             (let lunchBlock =
                    \<lparr>b_start = availableLunchStart,
                     b_end = addMs availableLunchStart (60 * 60000),
                     b_title = LunchTitle, b_type = KLunch, b_minutes = Some 60\<rparr>
              in st\<lparr>blocks := blocks st @ [lunchBlock],
                    result := result st @
                      [\<lparr>s_start = formatTime (b_start lunchBlock),
                        s_end = formatTime (b_end lunchBlock),
                        s_title = LunchSlotTitle, s_type = KLunch,
                        s_color = ''#10b981''\<rparr>]\<rparr>)
         | None \<Rightarrow> st\<lparr>warnings := warnings st @ [LunchWarning]\<rparr>)"

definition place_dinner :: "Date \<Rightarrow> gstate \<Rightarrow> gstate" where
  "place_dinner baseDate st =
     (case findDinnerSlot baseDate (blocks st) of
        Some dinnerStart \<Rightarrow>
          (let dinnerBlock =
                 \<lparr>b_start = dinnerStart, b_end = addMs dinnerStart (60 * 60000),
                  b_title = DinnerTitle, b_type = KDinner, b_minutes = Some 60\<rparr>
           in st\<lparr>blocks := blocks st @ [dinnerBlock],
                 result := result st @
                   [\<lparr>s_start = formatTime (b_start dinnerBlock),
                     s_end = formatTime (b_end dinnerBlock),
                     s_title = DinnerSlotTitle, s_type = KDinner,
                     s_color = ''#f59e0b''\<rparr>]\<rparr>)
      | None \<Rightarrow> st\<lparr>warnings := warnings st @ [DinnerWarning]\<rparr>)"

definition family_slot :: "Date \<Rightarrow> TimeSlot" where
  "family_slot baseDate =
     (let familyStart = parseTime ''20:00'' baseDate;
          familyEnd = parseTime ''24:00'' baseDate
      in \<lparr>s_start = formatTime familyStart, s_end = formatTime familyEnd,
          s_title = FamilyTitle, s_type = KFamily, s_color = ''#8b5cf6''\<rparr>)"

definition place_family :: "Date \<Rightarrow> gstate \<Rightarrow> gstate" where
  "place_family baseDate st = st\<lparr>result := result st @ [family_slot baseDate]\<rparr>"

definition categoryColors :: "category \<Rightarrow> string" where
  "categoryColors c =
     (case c of Future \<Rightarrow> ''#ef4444'' | Now \<Rightarrow> ''#3b82f6''
              | Maintain \<Rightarrow> ''#10b981'' | Chore \<Rightarrow> ''#9ca3af'')"

definition task_block :: "Task \<Rightarrow> Date \<Rightarrow> ScheduleBlock" where
  "task_block task currentTime =
     \<lparr>b_start = currentTime, b_end = addMs currentTime (t_minutes task * 60000),
      b_title = Text (t_title task), b_type = KCategory (t_category task),
      b_minutes = Some (t_minutes task)\<rparr>"

definition task_slot :: "Task \<Rightarrow> ScheduleBlock \<Rightarrow> TimeSlot" where
  "task_slot task taskBlock =
     \<lparr>s_start = formatTime (b_start taskBlock), s_end = formatTime (b_end taskBlock),
      s_title = TaskSlotTitle (t_title task) (t_minutes task),
      s_type = KCategory (t_category task),
      s_color = categoryColors (t_category task)\<rparr>"

text \<open>
  The inner \<open>while\<close> loop of the backlog sweep for one task. It returns the flag
  \<open>placed\<close>, the cursor \<open>currentTime\<close> (which the handler declares outside the
  \<open>for\<close> loop, so it is shared by all tasks) and the state.
\<close>

function scan_loop :: "Date \<Rightarrow> Task \<Rightarrow> Date \<Rightarrow> gstate \<Rightarrow> bool \<times> Date \<times> gstate" where
  "scan_loop dayEnd task currentTime st =
     (if date_lt currentTime dayEnd then
        (let taskEnd = addMs currentTime (t_minutes task * 60000)
         in if date_gt taskEnd dayEnd then (False, currentTime, st)
            else if \<not> checkConflict (task_block task currentTime) (blocks st) then
              (True, taskEnd,
               st\<lparr>blocks := blocks st @ [task_block task currentTime],
                  result := result st @
                    [task_slot task (task_block task currentTime)]\<rparr>)
            else scan_loop dayEnd task (addMs currentTime (15 * 60000)) st)
      else (False, currentTime, st))"
  by pat_completeness auto
termination
  by (relation "measure (\<lambda>(e, task, c, st).
        case e of None \<Rightarrow> 0 | Some y \<Rightarrow> (case c of None \<Rightarrow> 0 | Some x \<Rightarrow> nat (y - x)))")
     (auto simp: date_lt_def addMs_def split: option.splits)

definition place_task :: "Date \<Rightarrow> Date \<times> gstate \<Rightarrow> Task \<Rightarrow> Date \<times> gstate" where
  "place_task dayEnd cs task =
     (case scan_loop dayEnd task (fst cs) (snd cs) of
        (placed, currentTime, st) \<Rightarrow>
          if \<not> placed then
            (currentTime,
             st\<lparr>warnings := warnings st @ [TaskWarning (t_title task) (t_minutes task)]\<rparr>)
          else (currentTime, st))"

definition place_tasks :: "Date \<Rightarrow> Date \<times> gstate \<Rightarrow> Task list \<Rightarrow> Date \<times> gstate" where
  "place_tasks dayEnd cs tasksToPlace = foldl (place_task dayEnd) cs tasksToPlace"

definition tasksToPlace :: "Task list \<Rightarrow> Task list" where
  "tasksToPlace tasks =
     filter (\<lambda>t. t_minutes t \<ge> 45) tasks @ filter (\<lambda>t. t_minutes t < 45) tasks"

definition baseDate :: "int \<Rightarrow> Date" where
  "baseDate t0 = setHours (Some t0) 0 0 0 0"

definition planStart :: "int \<Rightarrow> Date" where
  "planStart t0 = ceil15 (addMs (Some t0) (15 * 60000))"

text \<open>The state when the backlog sweep starts: stages 2 to 6 of the handler.\<close>

definition before_backlog :: "int \<Rightarrow> FixedEvent list \<Rightarrow> gstate" where
  "before_backlog t0 fixedEvents =
     place_family (baseDate t0)
       (place_dinner (baseDate t0)
          (place_lunch (Some t0) (planStart t0) (baseDate t0)
             (reply_loop (planStart t0) (parseTime ''20:00'' (baseDate t0)) (planStart t0)
                (place_fixed (baseDate t0) fixedEvents))))"

text \<open>The cursor and the state when the \<open>for\<close> loop over the tasks ends.\<close>

definition generate_run :: "int \<Rightarrow> FixedEvent list \<Rightarrow> Task list \<Rightarrow> Date \<times> gstate" where
  "generate_run t0 fixedEvents tasks =
     place_tasks (parseTime ''20:00'' (baseDate t0))
       (planStart t0, before_backlog t0 fixedEvents) (tasksToPlace tasks)"

text \<open>
  The response. \<open>localeCompare\<close> on the start strings is the order of the characters,
  which is what it is on zero-padded clock strings; the sort is stable. Of the metadata,
  the second clock reading \<open>generatedAt\<close> and the two Japanese renderings of the hour
  and minute pairs are left out.
\<close>

record Response =
  schedule :: "TimeSlot list"
  r_warnings :: "warning list"
  m_planStart :: string
  m_pressedAt :: "int \<times> int"
  m_lunchPlanned :: "int \<times> int"

definition generate :: "int \<Rightarrow> FixedEvent list \<Rightarrow> Task list \<Rightarrow> Response" where
  "generate t0 fixedEvents tasks =
     (let st = snd (generate_run t0 fixedEvents tasks);
          lunchTime = t0 + 6 * 60 * 60000
      in \<lparr>schedule = sort_key s_start (result st),
          r_warnings = warnings st,
          m_planStart = formatTime (planStart t0),
          m_pressedAt = (getHours t0, getMinutes t0),
          m_lunchPlanned = (getHours lunchTime, getMinutes lunchTime)\<rparr>)"



section \<open>Notions used in the statements\<close>

text \<open>
  Two blocks overlap when \<open>hasOverlap\<close> holds of their ends; a working set is free of
  conflicts when no block conflicts with the blocks after it, that is, when no two of its
  blocks overlap.
\<close>

definition overlaps :: "ScheduleBlock \<Rightarrow> ScheduleBlock \<Rightarrow> bool" where
  "overlaps a b = hasOverlap (b_start a) (b_end a) (b_start b) (b_end b)"

fun conflict_free :: "ScheduleBlock list \<Rightarrow> bool" where
  "conflict_free [] = True"
| "conflict_free (b # bs) = (\<not> checkConflict b bs \<and> conflict_free bs)"

text \<open>
  \<open>clear_from n\<close>: a block at position \<open>n\<close> or later overlaps no block before it.
\<close>

definition clear_from :: "nat \<Rightarrow> ScheduleBlock list \<Rightarrow> bool" where
  "clear_from n bs =
     (\<forall>i j. i < j \<and> n \<le> j \<and> j < length bs
        \<longrightarrow> \<not> overlaps (bs ! i) (bs ! j) \<and> \<not> overlaps (bs ! j) (bs ! i))"

text \<open>Both dates are valid and the first is not after the second.\<close>

definition date_le :: "Date \<Rightarrow> Date \<Rightarrow> bool" where
  "date_le a b = (case a of None \<Rightarrow> False
                  | Some x \<Rightarrow> (case b of None \<Rightarrow> False | Some y \<Rightarrow> x \<le> y))"

text \<open>
  The backlog sweep, observed task by task. \<open>sweep_before k\<close> is the cursor and the
  state when the \<open>for\<close> loop reaches the task at position \<open>k\<close> of \<open>tasksToPlace\<close>
  (at \<open>k = length\<close>, when the loop has ended); \<open>scan_of k\<close> is what the \<open>while\<close>
  loop for that task returns. When the task is placed, its block is the last block of
  the working set at that moment.
\<close>

definition sweep_before :: "int \<Rightarrow> FixedEvent list \<Rightarrow> Task list \<Rightarrow> nat \<Rightarrow> Date \<times> gstate" where
  "sweep_before t0 fixedEvents tasks k =
     place_tasks (parseTime ''20:00'' (baseDate t0))
       (planStart t0, before_backlog t0 fixedEvents) (take k (tasksToPlace tasks))"

definition scan_of ::
  "int \<Rightarrow> FixedEvent list \<Rightarrow> Task list \<Rightarrow> nat \<Rightarrow> bool \<times> Date \<times> gstate" where
  "scan_of t0 fixedEvents tasks k =
     scan_loop (parseTime ''20:00'' (baseDate t0)) (tasksToPlace tasks ! k)
       (fst (sweep_before t0 fixedEvents tasks k))
       (snd (sweep_before t0 fixedEvents tasks k))"

definition task_placed :: "int \<Rightarrow> FixedEvent list \<Rightarrow> Task list \<Rightarrow> nat \<Rightarrow> bool" where
  "task_placed t0 fixedEvents tasks k = fst (scan_of t0 fixedEvents tasks k)"

definition placed_block :: "int \<Rightarrow> FixedEvent list \<Rightarrow> Task list \<Rightarrow> nat \<Rightarrow> ScheduleBlock" where
  "placed_block t0 fixedEvents tasks k =
     last (blocks (snd (snd (scan_of t0 fixedEvents tasks k))))"

text \<open>
  The candidates of the scan for one task are 15 minutes apart, from the cursor on.
  \<open>rejected n\<close>: the first \<open>n\<close> candidates are before \<open>dayEnd\<close>, end by \<open>dayEnd\<close> and
  conflict with the working set, so the scan went past each of them.
\<close>

definition candidate :: "Date \<Rightarrow> nat \<Rightarrow> Date" where
  "candidate currentTime k = addMs currentTime (int k * (15 * 60000))"

definition in_day :: "Date \<Rightarrow> Task \<Rightarrow> Date \<Rightarrow> bool" where
  "in_day dayEnd task start =
     (date_lt start dayEnd \<and> \<not> date_gt (addMs start (t_minutes task * 60000)) dayEnd)"

definition rejected :: "Date \<Rightarrow> Task \<Rightarrow> Date \<Rightarrow> gstate \<Rightarrow> nat \<Rightarrow> bool" where
  "rejected dayEnd task currentTime st n =
     (\<forall>k < n. in_day dayEnd task (candidate currentTime k)
             \<and> checkConflict (task_block task (candidate currentTime k)) (blocks st))"

text \<open>
  The position in \<open>tasksToPlace\<close> of the task at position \<open>i\<close> of the input: the deep
  tasks come first, each group in the order of the input.
\<close>

definition sweep_index :: "Task list \<Rightarrow> nat \<Rightarrow> nat" where
  "sweep_index tasks i =
     (if t_minutes (tasks ! i) \<ge> 45
      then length (filter (\<lambda>t. t_minutes t \<ge> 45) (take i tasks))
      else length (filter (\<lambda>t. t_minutes t \<ge> 45) tasks)
           + length (filter (\<lambda>t. t_minutes t < 45) (take i tasks)))"

definition is_task_slot :: "TimeSlot \<Rightarrow> bool" where
  "is_task_slot s = (case s_type s of KCategory c \<Rightarrow> True | _ \<Rightarrow> False)"

definition is_task_warning :: "warning \<Rightarrow> bool" where
  "is_task_warning w = (case w of TaskWarning t m \<Rightarrow> True | _ \<Rightarrow> False)"


section \<open>Properties of the time utilities\<close>

lemma getMinutes_range: "0 \<le> getMinutes t \<and> getMinutes t < 60"
  by (simp add: getMinutes_def)

lemma getHours_range: "0 \<le> getHours t \<and> getHours t < 24"
  by (simp add: getHours_def)

lemma div_div15: "(t::int) div 900000 = (t div 60000) div 15"
  by (simp add: div_mult2_eq[symmetric])

lemma hour_floor: "(t::int) - t mod 3600000 = 3600000 * ((t div 60000) div 60)"
  by (simp add: minus_mod_eq_mult_div div_mult2_eq[symmetric])

lemma mod_60000_1000: "(60000 * k + s) mod 1000 = (s::int) mod 1000"
proof -
  have "60000 * k + s = 1000 * (60 * k) + s" by simp
  then show ?thesis by (simp only: mod_mult_self4)
qed

lemma mod_900000: "(t::int) mod 900000 = 60000 * ((t div 60000) mod 15) + t mod 60000"
  using zmod_zmult2_eq[of 15 t 60000] by simp

lemma next_boundary: "900000 * ((t::int) div 900000 + 1) = t - t mod 900000 + 900000"
  by (simp add: minus_mod_eq_mult_div algebra_simps)

lemma strip_sec:
  assumes "0 \<le> s" "s < 60000"
  shows "setMilliseconds (setSeconds (Some (60000 * k + s)) 0) 0 = Some (60000 * k)"
proof -
  have a: "(60000 * k + s) mod 60000 = s" using assms by simp
  have b: "(60000 * k + s) mod 1000 = s mod 1000"
    by (rule mod_60000_1000)
  have c: "(60000 * k + s mod 1000) mod 1000 = s mod 1000"
    using mod_60000_1000[of k "s mod 1000"] by simp
  show ?thesis
    unfolding setSeconds_def setMilliseconds_def option.case a b
    by (simp add: c)
qed

lemma ring_min: "3600000 * a + (b + (15 - c)) * 60000 + s = 60000 * (60 * a + b + 15 - c) + (s::int)"
  by (simp add: algebra_simps)

lemma ceil15_miss:
  assumes "getMinutes t mod 15 \<noteq> 0"
  shows "ceil15 (Some t) = Some (900000 * (t div 900000 + 1))"
proof -
  define q where "q = t div 60000"
  define s where "s = t mod 60000"
  have s: "0 \<le> s" "s < 60000" by (simp_all add: s_def)
  have t: "t = 60000 * q + s" by (simp add: q_def s_def)
  have q15: "(q mod 60) mod 15 = q mod 15"
    by (simp add: mod_mod_cancel)
  have e: "60 * (q div 60) + q mod 60 + 15 - q mod 15 = 15 * (q div 15 + 1)"
    by presburger
  have "3600000 * (q div 60) + (q mod 60 + (15 - q mod 15)) * 60000 + s
      = 60000 * (60 * (q div 60) + q mod 60 + 15 - q mod 15) + s"
    by (rule ring_min)
  then have sm: "setMinutes (Some t) (getMinutes t + (15 - getMinutes t mod 15))
    = Some (60000 * (15 * (q div 15 + 1)) + s)"
    unfolding setMinutes_def option.case hour_floor getMinutes_def q_def[symmetric] s_def[symmetric] q15 e
    by simp
  have "ceil15 (Some t) = setMilliseconds (setSeconds
      (setMinutes (Some t) (getMinutes t + (15 - getMinutes t mod 15))) 0) 0"
    using assms by (simp add: ceil15_def Let_def)
  also have "\<dots> = Some (60000 * (15 * (q div 15 + 1)))"
    by (simp only: sm strip_sec[OF s])
  finally have "ceil15 (Some t) = Some (60000 * (15 * (q div 15 + 1)))" .
  then show ?thesis by (simp add: div_div15 q_def)
qed

lemma ceil15_hit: "getMinutes t mod 15 = 0 \<Longrightarrow> ceil15 (Some t) = Some t"
  by (simp add: ceil15_def)

lemma getMinutes_boundary: "getMinutes (900000 * k) mod 15 = 0"
proof -
  have "(900000 * k) div 60000 = 15 * k" by simp
  then show ?thesis unfolding getMinutes_def by (simp add: mod_mod_cancel)
qed

lemma ceil15_idem: "ceil15 (ceil15 d) = ceil15 d"
proof (cases d)
  case None then show ?thesis by (simp add: ceil15_def)
next
  case (Some t)
  show ?thesis
  proof (cases "getMinutes t mod 15 = 0")
    case True then show ?thesis using Some by (simp add: ceil15_hit)
  next
    case False
    have "ceil15 d = Some (900000 * (t div 900000 + 1))"
      unfolding Some by (rule ceil15_miss[OF False])
    then show ?thesis
      by (simp only: ceil15_hit[OF getMinutes_boundary])
  qed
qed

lemma ceil15_bounds:
  "\<exists>r. ceil15 (Some t) = Some r \<and> t \<le> r \<and> r < t + 900000"
proof (cases "getMinutes t mod 15 = 0")
  case True
  then show ?thesis by (simp add: ceil15_hit)
next
  case False
  have "(t div 60000) mod 15 \<noteq> 0"
    using False by (simp add: getMinutes_def mod_mod_cancel)
  then have "0 < (t div 60000) mod 15"
    by (metis Euclidean_Rings.pos_mod_sign less_le zero_less_numeral)
  then have pos: "0 < t mod 900000"
    unfolding mod_900000 using Euclidean_Rings.pos_mod_sign[of 60000 t] by linarith
  have lo: "t \<le> 900000 * (t div 900000 + 1)"
    unfolding next_boundary using Euclidean_Rings.pos_mod_bound[of 900000 t] by linarith
  have hi: "900000 * (t div 900000 + 1) < t + 900000"
    unfolding next_boundary using pos by linarith
  show ?thesis
    unfolding ceil15_miss[OF False]
    by (intro exI[of _ "900000 * (t div 900000 + 1)"] conjI refl lo hi)
qed

text \<open>
  C6. \<open>ceil15\<close> returns a date whose minute is a multiple of 15 as it is, seconds and
  milliseconds included: at 10:00:30.000 the result is 10:00:30.000, which is 30 seconds
  past a quarter-hour boundary, while the least boundary at or after it is 10:15:00.000.
\<close>

theorem ceil15_keeps_seconds:
  "ceil15 (Some 36030000) = Some 36030000 \<and> (36030000 :: int) mod 900000 = 30000
   \<and> ceil15 (Some 36030000) \<noteq> Some 36900000"
  by (simp add: ceil15_def getMinutes_def)

lemma digit_val_char: "0 \<le> n \<Longrightarrow> n < 10 \<Longrightarrow> digit_val (digit_char n) = Some n"
  by (simp add: digit_val_def digit_char_def)

lemma digit_char_not_colon: "0 \<le> n \<Longrightarrow> n < 10 \<Longrightarrow> digit_char n \<noteq> CHR '':''"
proof
  assume a: "0 \<le> n" "n < 10" and "digit_char n = CHR '':''"
  then have "of_char (digit_char n) = (of_char (CHR '':'') :: int)" by simp
  then show False using a by (simp add: digit_char_def)
qed

lemma Number_pad2: assumes "0 \<le> n" "n < 100" shows "Number (pad2 n) = Some n"
proof -
  have a: "0 \<le> n div 10" "n div 10 < 10" "0 \<le> n mod 10" "n mod 10 < 10"
    using assms by simp_all
  show ?thesis
    by (simp add: Number_def pad2_def digit_val_char[OF a(1,2)] digit_val_char[OF a(3,4)])
qed

lemma split_clock:
  assumes "0 \<le> h" "h < 100" "0 \<le> m" "m < 100"
  shows "split (pad2 h @ CHR '':'' # pad2 m) (CHR '':'') = [pad2 h, pad2 m]"
proof -
  have "digit_char (h div 10) \<noteq> CHR '':''" "digit_char (h mod 10) \<noteq> CHR '':''"
    "digit_char (m div 10) \<noteq> CHR '':''" "digit_char (m mod 10) \<noteq> CHR '':''"
    using assms by (simp_all add: digit_char_not_colon)
  then show ?thesis by (simp add: split_def pad2_def)
qed

lemma parse_format:
  "parseTime (formatTime (Some t)) (Some b) =
     Some (b - b mod 86400000 + getHours t * 3600000 + getMinutes t * 60000)"
proof -
  have h: "Number (pad2 (getHours t)) = Some (getHours t)"
    using getHours_range[of t] by (intro Number_pad2) simp_all
  have m: "Number (pad2 (getMinutes t)) = Some (getMinutes t)"
    using getMinutes_range[of t] by (intro Number_pad2) simp_all
  have s: "split (pad2 (getHours t) @ CHR '':'' # pad2 (getMinutes t)) (CHR '':'')
             = [pad2 (getHours t), pad2 (getMinutes t)]"
    using getHours_range[of t] getMinutes_range[of t] by (intro split_clock) simp_all
  show ?thesis
    by (simp add: parseTime_def formatTime_def s h m setHours_def)
qed

lemma clock_decompose:
  "(t::int) = t - t mod 86400000 + ((t div 3600000) mod 24) * 3600000 + ((t div 60000) mod 60) * 60000 + t mod 60000"
proof -
  define q where "q = t div 60000"
  have t: "t = 60000 * q + t mod 60000" by (simp add: q_def)
  have d1: "t div 3600000 = q div 60" by (simp add: q_def div_mult2_eq[symmetric])
  have d2: "t div 86400000 = q div 1440" by (simp add: q_def div_mult2_eq[symmetric])
  have d3: "t - t mod 86400000 = 86400000 * (q div 1440)"
    by (simp add: minus_mod_eq_mult_div d2)
  have "q mod 1440 = 60 * ((q div 60) mod 24) + q mod 60"
    using zmod_zmult2_eq[of 24 q 60] by simp
  then have e: "q = 1440 * (q div 1440) + 60 * ((q div 60) mod 24) + q mod 60"
    using mult_div_mod_eq[of 1440 q] by linarith
  have "t = 60000 * (1440 * (q div 1440) + 60 * ((q div 60) mod 24) + q mod 60) + t mod 60000"
    using t e by simp
  then show ?thesis unfolding d3 d1 q_def[symmetric] by (simp add: algebra_simps)
qed

lemma roundtrip:
  assumes "t mod 60000 = 0" "b div 86400000 = t div 86400000"
  shows "parseTime (formatTime (Some t)) (Some b) = Some t"
proof -
  have day: "b - b mod 86400000 = t - t mod 86400000"
    using assms(2) by (simp add: minus_mod_eq_mult_div)
  have "b - b mod 86400000 + getHours t * 3600000 + getMinutes t * 60000 = t"
    unfolding day getHours_def getMinutes_def
    using clock_decompose[of t] assms(1) by linarith
  then show ?thesis
    by (simp only: parse_format)
qed

text \<open>
  C9. For a date \<open>t\<close> with zero seconds and milliseconds, parsing the formatted clock
  string on a base date of the same day gives \<open>t\<close> back; in particular on the midnight
  of the day of \<open>t\<close>, which is how the handler computes its base date.
\<close>

theorem parseTime_formatTime_roundtrip:
  assumes "t mod 60000 = 0"
  shows "(b div 86400000 = t div 86400000 \<longrightarrow>
            parseTime (formatTime (Some t)) (Some b) = Some t)
         \<and> parseTime (formatTime (Some t)) (baseDate t) = Some t"
proof -
  have "(t - t mod 86400000) div 86400000 = t div 86400000"
    by (simp add: minus_mod_eq_mult_div)
  then have "parseTime (formatTime (Some t)) (Some (t - t mod 86400000)) = Some t"
    by (rule roundtrip[OF assms])
  moreover have "baseDate t = Some (t - t mod 86400000)"
    by (simp add: baseDate_def setHours_def)
  ultimately show ?thesis
    using roundtrip[OF assms, of b] by simp
qed

theorem parseTime_formatTime_roundtrip_witness:
  "(36900000 :: int) mod 60000 = 0 \<and> (50000000 :: int) div 86400000 = 36900000 div 86400000
   \<and> formatTime (Some 36900000) = ''10:15''
   \<and> parseTime (formatTime (Some 36900000)) (Some 50000000) = Some 36900000
   \<and> parseTime (formatTime (Some 36900000)) (baseDate 36900000) = Some 36900000"
proof -
  have h: "(36900000 :: int) mod 60000 = 0" by simp
  have d: "(50000000 :: int) div 86400000 = 36900000 div 86400000" by simp
  have f: "formatTime (Some 36900000) = ''10:15''"
    by (simp add: formatTime_def pad2_def getHours_def getMinutes_def digit_char_def
        char_of_def)
  show ?thesis
    using parseTime_formatTime_roundtrip [OF h, of 50000000] h d f by blast
qed

section \<open>The slot finders\<close>

lemma addMs_0: "addMs p 0 = p"
  by (simp add: addMs_def split: option.splits)

lemma forward_scan_15:
  "forward_scan ok p 15 =
     List.find ok (map (\<lambda>m. addMs p (m * 60000)) [15, 30, 45, 60, 75, 90])"
  by (simp add: forward_scan.simps[of ok p 15] forward_scan.simps[of ok p 30]
      forward_scan.simps[of ok p 45] forward_scan.simps[of ok p 60]
      forward_scan.simps[of ok p 75] forward_scan.simps[of ok p 90]
      forward_scan.simps[of ok p 105] Let_def)

lemma backward_scan_15:
  "backward_scan ok p 15 =
     List.find ok (map (\<lambda>m. addMs p (m * 60000))
       [-15, -30, -45, -60, -75, -90, -105, -120, -135, -150, -165, -180])"
  by (simp add: backward_scan.simps[of ok p 15] backward_scan.simps[of ok p 30]
      backward_scan.simps[of ok p 45] backward_scan.simps[of ok p 60]
      backward_scan.simps[of ok p 75] backward_scan.simps[of ok p 90]
      backward_scan.simps[of ok p 105] backward_scan.simps[of ok p 120]
      backward_scan.simps[of ok p 135] backward_scan.simps[of ok p 150]
      backward_scan.simps[of ok p 165] backward_scan.simps[of ok p 180]
      backward_scan.simps[of ok p 195] Let_def)

lemma find_append: "List.find P (xs @ ys) = (case List.find P xs of Some x \<Rightarrow> Some x | None \<Rightarrow> List.find P ys)"
  by (induction xs) auto

lemma findAvailableSlot_find:
  "findAvailableSlot p d bs mn mx =
     List.find (trySlot d bs mn mx) (map (\<lambda>m. addMs p (m * 60000))
       [0, 15, 30, 45, 60, 75, 90,
        -15, -30, -45, -60, -75, -90, -105, -120, -135, -150, -165, -180])"
proof -
  have split: "map (\<lambda>m. addMs p (m * 60000))
       [0, 15, 30, 45, 60, 75, 90,
        -15, -30, -45, -60, -75, -90, -105, -120, -135, -150, -165, -180]
     = p # map (\<lambda>m. addMs p (m * 60000)) [15, 30, 45, 60, 75, 90]
         @ map (\<lambda>m. addMs p (m * 60000))
             [-15, -30, -45, -60, -75, -90, -105, -120, -135, -150, -165, -180]"
    by (simp add: addMs_0)
  show ?thesis
    unfolding split findAvailableSlot_def forward_scan_15 backward_scan_15
    by (simp only: find.simps find_append)
qed

lemma trySlot_valid:
  "trySlot d bs (Some (Some lo)) (Some (Some hi)) (Some s) =
     (lo \<le> s \<and> s + d * 60000 \<le> hi \<and>
      \<not> checkConflict \<lparr>b_start = Some s, b_end = Some (s + d * 60000), b_title = Text ''test'',
                        b_type = KTest, b_minutes = Some d\<rparr> bs)"
  by (auto simp: trySlot_def date_lt_def date_gt_def addMs_def Let_def)

lemma findAvailableSlot_trySlot:
  "findAvailableSlot p d bs mn mx = Some r \<Longrightarrow> trySlot d bs mn mx r"
  unfolding findAvailableSlot_find by (auto simp only: find_Some_iff)

lemma find_Some_set: "List.find P xs = Some r \<Longrightarrow> r \<in> set xs \<and> P r"
  by (induction xs) (auto split: if_splits)

lemma findAvailableSlot_valid:
  "findAvailableSlot (Some p) d bs mn mx = Some r \<Longrightarrow> \<exists>t. r = Some t"
  unfolding findAvailableSlot_find
  by (drule find_Some_set) (auto simp: addMs_def)

text \<open>
  C4. \<open>findAvailableSlot\<close> returns the first candidate that passes \<open>trySlot\<close>, in the
  order: the preferred start, then +15 to +90 minutes, then -15 to -180 minutes, and
  \<open>null\<close> when none passes. On valid dates \<open>trySlot\<close> holds exactly when the start is at
  or after the lower bound, the end is at or before the upper bound and the block has no
  conflict (without bounds: when it has no conflict). Hence, with both bounds and a
  positive duration, a returned start is a valid date in \<open>[lo, hi)\<close>.
\<close>

theorem findAvailableSlot_order_and_bounds:
  "findAvailableSlot p d bs mn mx =
     List.find (trySlot d bs mn mx) (map (\<lambda>m. addMs p (m * 60000))
       [0, 15, 30, 45, 60, 75, 90,
        -15, -30, -45, -60, -75, -90, -105, -120, -135, -150, -165, -180])
   \<and> trySlot d bs (Some (Some lo)) (Some (Some hi)) (Some s) =
       (lo \<le> s \<and> s + d * 60000 \<le> hi \<and>
        \<not> checkConflict \<lparr>b_start = Some s, b_end = Some (s + d * 60000),
                          b_title = Text ''test'', b_type = KTest, b_minutes = Some d\<rparr> bs)
   \<and> trySlot d bs None None (Some s) =
       (\<not> checkConflict \<lparr>b_start = Some s, b_end = Some (s + d * 60000),
                          b_title = Text ''test'', b_type = KTest, b_minutes = Some d\<rparr> bs)
   \<and> (findAvailableSlot (Some q) d bs (Some (Some lo)) (Some (Some hi)) = Some r \<and> 0 < d
        \<longrightarrow> (\<exists>t. r = Some t \<and> lo \<le> t \<and> t < hi))"
proof -
  have none: "trySlot d bs None None (Some s) =
       (\<not> checkConflict \<lparr>b_start = Some s, b_end = Some (s + d * 60000),
                          b_title = Text ''test'', b_type = KTest, b_minutes = Some d\<rparr> bs)"
    by (simp add: trySlot_def addMs_def Let_def)
  have bounds: "\<exists>t. r = Some t \<and> lo \<le> t \<and> t < hi"
    if a: "findAvailableSlot (Some q) d bs (Some (Some lo)) (Some (Some hi)) = Some r"
      and d: "0 < d"
  proof -
    obtain t where t: "r = Some t" using findAvailableSlot_valid[OF a] by blast
    have "trySlot d bs (Some (Some lo)) (Some (Some hi)) (Some t)"
      using findAvailableSlot_trySlot[OF a] t by simp
    then have "lo \<le> t" "t + d * 60000 \<le> hi" by (simp_all add: trySlot_valid)
    then show ?thesis using d t by simp
  qed
  show ?thesis
    using findAvailableSlot_find[of p d bs mn mx] trySlot_valid[of d bs lo hi s] none bounds
    by blast
qed

theorem findAvailableSlot_order_and_bounds_witness:
  "findAvailableSlot (Some 36000000) 60
      [\<lparr>b_start = Some 36000000, b_end = Some 39600000, b_title = Text ''meeting'',
        b_type = KFixed, b_minutes = Some 60\<rparr>]
      (Some (Some 32400000)) (Some (Some 72000000)) = Some (Some 39600000)
   \<and> (0 :: int) < 60
   \<and> (\<exists>t. Some 39600000 = Some t \<and> (32400000 :: int) \<le> t \<and> t < 72000000)"
proof -
  have v: "findAvailableSlot (Some 36000000) 60
      [\<lparr>b_start = Some 36000000, b_end = Some 39600000, b_title = Text ''meeting'',
        b_type = KFixed, b_minutes = Some 60\<rparr>]
      (Some (Some 32400000)) (Some (Some 72000000)) = Some (Some 39600000)"
    by (simp add: findAvailableSlot_find trySlot_def checkConflict_def hasOverlap_def
        date_lt_def date_gt_def addMs_def)
  have d: "(0 :: int) < 60" by simp
  show ?thesis
    using findAvailableSlot_order_and_bounds
      [of "Some 36000000" 60
          "[\<lparr>b_start = Some 36000000, b_end = Some 39600000, b_title = Text ''meeting'',
             b_type = KFixed, b_minutes = Some 60\<rparr>]"
          "Some (Some 32400000)" "Some (Some 72000000)" 32400000 72000000 0 36000000
          "Some 39600000"] v d
    by blast
qed

lemma dinner_scan_find:
  "dinner_scan maxTime base bs cs =
     List.find (\<lambda>s. \<not> checkConflict
           \<lparr>b_start = s, b_end = addMs s (60 * 60000), b_title = Text ''dinner'',
            b_type = KDinner, b_minutes = Some 60\<rparr> bs)
       (filter (\<lambda>s. \<not> date_gt (addMs s (60 * 60000)) maxTime)
          (map (\<lambda>c. parseTime c base) cs))"
  by (induction cs) (simp_all add: Let_def)

lemma parse_clock_literals:
  "parseTime ''21:00'' (Some b) = Some (b - b mod 86400000 + 75600000)"
  "parseTime ''20:30'' (Some b) = Some (b - b mod 86400000 + 73800000)"
  "parseTime ''21:30'' (Some b) = Some (b - b mod 86400000 + 77400000)"
  "parseTime ''20:00'' (Some b) = Some (b - b mod 86400000 + 72000000)"
  "parseTime ''22:00'' (Some b) = Some (b - b mod 86400000 + 79200000)"
  "parseTime ''23:00'' (Some b) = Some (b - b mod 86400000 + 82800000)"
  "parseTime ''24:00'' (Some b) = Some (b - b mod 86400000 + 86400000)"
  by (simp_all add: parseTime_def split_def Number_def digit_val_def setHours_def)

lemma findDinnerSlot_find:
  "findDinnerSlot (Some b) bs =
     List.find (\<lambda>s. \<not> checkConflict
           \<lparr>b_start = s, b_end = addMs s (60 * 60000), b_title = Text ''dinner'',
            b_type = KDinner, b_minutes = Some 60\<rparr> bs)
       (map (\<lambda>m. Some (b - b mod 86400000 + m * 60000))
          [21 * 60, 20 * 60 + 30, 21 * 60 + 30, 20 * 60, 22 * 60, 23 * 60])"
  unfolding findDinnerSlot_def dinner_scan_find candidates_def
  by (simp add: parse_clock_literals date_gt_def date_lt_def addMs_def)

text \<open>
  C5. \<open>findDinnerSlot\<close> goes through the clock strings 21:00, 20:30, 21:30, 20:00, 22:00,
  23:00 in this order, each for a block of 60 minutes. The scan skips a candidate whose
  end is after 24:00 and returns the first other candidate without a conflict, or
  \<open>null\<close>; every one of the six ends by 24:00, so the result is the first of the six
  that has no conflict, and a returned date is one of the six.
\<close>

theorem findDinnerSlot_candidates:
  "candidates = [''21:00'', ''20:30'', ''21:30'', ''20:00'', ''22:00'', ''23:00'']
   \<and> map (\<lambda>c. parseTime c (Some b)) candidates =
       map (\<lambda>m. Some (b - b mod 86400000 + m * 60000))
         [21 * 60, 20 * 60 + 30, 21 * 60 + 30, 20 * 60, 22 * 60, 23 * 60]
   \<and> dinner_scan maxTime base bs cs =
       List.find (\<lambda>s. \<not> checkConflict
             \<lparr>b_start = s, b_end = addMs s (60 * 60000), b_title = Text ''dinner'',
              b_type = KDinner, b_minutes = Some 60\<rparr> bs)
         (filter (\<lambda>s. \<not> date_gt (addMs s (60 * 60000)) maxTime)
            (map (\<lambda>c. parseTime c base) cs))
   \<and> findDinnerSlot (Some b) bs =
       List.find (\<lambda>s. \<not> checkConflict
             \<lparr>b_start = s, b_end = addMs s (60 * 60000), b_title = Text ''dinner'',
              b_type = KDinner, b_minutes = Some 60\<rparr> bs)
         (map (\<lambda>m. Some (b - b mod 86400000 + m * 60000))
            [21 * 60, 20 * 60 + 30, 21 * 60 + 30, 20 * 60, 22 * 60, 23 * 60])
   \<and> (findDinnerSlot (Some b) bs = Some r \<longrightarrow>
        r \<in> set (map (\<lambda>m. Some (b - b mod 86400000 + m * 60000))
                   [21 * 60, 20 * 60 + 30, 21 * 60 + 30, 20 * 60, 22 * 60, 23 * 60]))"
proof -
  have lits: "map (\<lambda>c. parseTime c (Some b)) candidates =
       map (\<lambda>m. Some (b - b mod 86400000 + m * 60000))
         [21 * 60, 20 * 60 + 30, 21 * 60 + 30, 20 * 60, 22 * 60, 23 * 60]"
    by (simp add: candidates_def parse_clock_literals)
  have mem: "findDinnerSlot (Some b) bs = Some r \<longrightarrow>
        r \<in> set (map (\<lambda>m. Some (b - b mod 86400000 + m * 60000))
                   [21 * 60, 20 * 60 + 30, 21 * 60 + 30, 20 * 60, 22 * 60, 23 * 60])"
    unfolding findDinnerSlot_find by (blast dest: find_Some_set)
  show ?thesis
    using candidates_def lits dinner_scan_find[of maxTime base bs cs]
      findDinnerSlot_find[of b bs] mem
    by blast
qed

theorem findDinnerSlot_candidates_witness:
  "findDinnerSlot (Some 0)
      [\<lparr>b_start = Some 75600000, b_end = Some 79200000, b_title = Text ''party'',
        b_type = KFixed, b_minutes = Some 60\<rparr>] = Some (Some 72000000)
   \<and> Some 72000000 \<in> set (map (\<lambda>m. Some (0 - 0 mod 86400000 + m * 60000))
                   [21 * 60, 20 * 60 + 30, 21 * 60 + 30, 20 * 60, 22 * 60, 23 * 60 :: int])"
proof -
  have v: "findDinnerSlot (Some 0)
      [\<lparr>b_start = Some 75600000, b_end = Some 79200000, b_title = Text ''party'',
        b_type = KFixed, b_minutes = Some 60\<rparr>] = Some (Some 72000000)"
    by (simp add: findDinnerSlot_find checkConflict_def hasOverlap_def
        date_lt_def date_gt_def addMs_def)
  show ?thesis
    using findDinnerSlot_candidates
      [where b = 0 and r = "Some 72000000" and bs =
          "[\<lparr>b_start = Some 75600000, b_end = Some 79200000, b_title = Text ''party'',
             b_type = KFixed, b_minutes = Some 60\<rparr>]"] v
    by blast
qed

section \<open>The working set\<close>

lemma overlaps_sym: "overlaps a b = overlaps b a"
  by (auto simp: overlaps_def hasOverlap_def date_gt_def)

lemma checkConflict_Nil: "checkConflict b [] = False"
  by (simp add: checkConflict_def)

lemma checkConflict_Cons: "checkConflict b (a # bs) = (overlaps b a \<or> checkConflict b bs)"
  by (simp add: checkConflict_def overlaps_def)

lemma checkConflict_append:
  "checkConflict b (xs @ ys) = (checkConflict b xs \<or> checkConflict b ys)"
  by (simp add: checkConflict_def)

lemma checkConflict_iff: "checkConflict b bs = (\<exists>a \<in> set bs. overlaps b a)"
  by (simp add: checkConflict_def overlaps_def list_ex_iff)

lemma checkConflict_cong:
  "b_start b = b_start b' \<Longrightarrow> b_end b = b_end b' \<Longrightarrow> checkConflict b bs = checkConflict b' bs"
  by (simp add: checkConflict_def)

lemma conflict_free_snoc:
  "conflict_free bs \<Longrightarrow> \<not> checkConflict b bs \<Longrightarrow> conflict_free (bs @ [b])"
proof (induction bs)
  case Nil
  then show ?case by (simp add: checkConflict_Nil)
next
  case (Cons a bs)
  then show ?case
    using overlaps_sym[of a b]
    by (simp add: checkConflict_Cons checkConflict_append checkConflict_Nil)
qed

lemma conflict_free_pairwise:
  "conflict_free bs = (\<forall>i j. i < j \<and> j < length bs \<longrightarrow> \<not> overlaps (bs ! i) (bs ! j))"
proof (induction bs)
  case Nil
  then show ?case by simp
next
  case (Cons a bs)
  have "(\<forall>i j. i < j \<and> j < length (a # bs) \<longrightarrow> \<not> overlaps ((a # bs) ! i) ((a # bs) ! j))
      = ((\<forall>j. j < length bs \<longrightarrow> \<not> overlaps a (bs ! j))
         \<and> (\<forall>i j. i < j \<and> j < length bs \<longrightarrow> \<not> overlaps (bs ! i) (bs ! j)))"
    (is "?L = (?A \<and> ?B)")
  proof
    assume l: ?L
    have ?A
    proof (intro allI impI)
      fix j assume "j < length bs"
      then show "\<not> overlaps a (bs ! j)" using l[rule_format, of 0 "Suc j"] by simp
    qed
    moreover have ?B
    proof (intro allI impI)
      fix i j assume "i < j \<and> j < length bs"
      then show "\<not> overlaps (bs ! i) (bs ! j)" using l[rule_format, of "Suc i" "Suc j"] by simp
    qed
    ultimately show "?A \<and> ?B" ..
  next
    assume r: "?A \<and> ?B"
    show ?L
    proof (intro allI impI)
      fix i j assume ij: "i < j \<and> j < length (a # bs)"
      then obtain j' where j: "j = Suc j'" by (cases j) auto
      show "\<not> overlaps ((a # bs) ! i) ((a # bs) ! j)"
      proof (cases i)
        case 0
        then show ?thesis using r ij j by simp
      next
        case (Suc i')
        then show ?thesis using r ij j by simp
      qed
    qed
  qed
  moreover have "(\<not> checkConflict a bs) = (\<forall>j. j < length bs \<longrightarrow> \<not> overlaps a (bs ! j))"
    unfolding checkConflict_iff by (metis in_set_conv_nth)
  ultimately show ?case using Cons.IH by simp
qed

lemma conflict_free_take: "conflict_free bs \<Longrightarrow> conflict_free (take n bs)"
  unfolding conflict_free_pairwise by simp

section \<open>The stages before the backlog sweep\<close>

subsection \<open>Reply windows\<close>

lemma reply_step_blocks:
  "blocks (reply_step p e c st) = blocks st \<or>
   (\<exists>b. blocks (reply_step p e c st) = blocks st @ [b] \<and> \<not> checkConflict b (blocks st)
        \<and> b_type b = KReply)"
  by (simp add: reply_step_def Let_def split: option.splits)

lemma reply_step_result:
  "\<exists>rs. result (reply_step p e c st) = result st @ rs \<and> (\<forall>s \<in> set rs. s_type s = KReply)"
  by (simp add: reply_step_def Let_def split: option.splits)

lemma reply_step_warnings: "warnings (reply_step p e c st) = warnings st"
  by (simp add: reply_step_def Let_def split: option.splits)

lemma reply_loop_blocks:
  "\<exists>bs. blocks (reply_loop p e c st) = blocks st @ bs \<and> (\<forall>b \<in> set bs. b_type b = KReply)"
proof (induction p e c st rule: reply_loop.induct)
  case (1 p e c st)
  show ?case
  proof (cases "date_lt c e")
    case True
    obtain bs where bs: "blocks (reply_loop p e (addMs c (3 * 60 * 60000)) (reply_step p e c st))
        = blocks (reply_step p e c st) @ bs" "\<forall>b \<in> set bs. b_type b = KReply"
      using "1.IH"[OF True] by blast
    from reply_step_blocks[of p e c st] show ?thesis
    proof
      assume "blocks (reply_step p e c st) = blocks st"
      then show ?thesis using bs True by (subst reply_loop.simps) simp
    next
      assume "\<exists>b. blocks (reply_step p e c st) = blocks st @ [b] \<and> \<not> checkConflict b (blocks st)
        \<and> b_type b = KReply"
      then obtain b where "blocks (reply_step p e c st) = blocks st @ [b]" "b_type b = KReply"
        by blast
      then show ?thesis using bs True by (subst reply_loop.simps) simp
    qed
  next
    case False
    then show ?thesis by (subst reply_loop.simps) simp
  qed
qed

lemma reply_step_conflict_free:
  "conflict_free (blocks st) \<Longrightarrow> conflict_free (blocks (reply_step p e c st))"
  using reply_step_blocks[of p e c st] by (auto intro: conflict_free_snoc)

lemma reply_loop_conflict_free:
  "conflict_free (blocks st) \<Longrightarrow> conflict_free (blocks (reply_loop p e c st))"
proof (induction p e c st rule: reply_loop.induct)
  case (1 p e c st)
  show ?case
  proof (cases "date_lt c e")
    case True
    then show ?thesis
      using "1.IH"[OF True reply_step_conflict_free[OF "1.prems"]]
      by (subst reply_loop.simps) simp
  next
    case False
    then show ?thesis using "1.prems" by (subst reply_loop.simps) simp
  qed
qed

lemma reply_loop_result:
  "\<exists>rs. result (reply_loop p e c st) = result st @ rs \<and> (\<forall>s \<in> set rs. s_type s = KReply)"
proof (induction p e c st rule: reply_loop.induct)
  case (1 p e c st)
  show ?case
  proof (cases "date_lt c e")
    case True
    obtain rs where rs: "result (reply_loop p e (addMs c (3 * 60 * 60000)) (reply_step p e c st))
        = result (reply_step p e c st) @ rs" "\<forall>s \<in> set rs. s_type s = KReply"
      using "1.IH"[OF True] by blast
    obtain rs0 where rs0: "result (reply_step p e c st) = result st @ rs0"
        "\<forall>s \<in> set rs0. s_type s = KReply"
      using reply_step_result[of p e c st] by blast
    have "result (reply_loop p e c st) = result st @ (rs0 @ rs)"
      using rs rs0 True by (subst reply_loop.simps) simp
    moreover have "\<forall>s \<in> set (rs0 @ rs). s_type s = KReply" using rs rs0 by auto
    ultimately show ?thesis by blast
  next
    case False
    then show ?thesis by (subst reply_loop.simps) simp
  qed
qed

lemma reply_loop_warnings: "warnings (reply_loop p e c st) = warnings st"
proof (induction p e c st rule: reply_loop.induct)
  case (1 p e c st)
  show ?case
  proof (cases "date_lt c e")
    case True
    then show ?thesis
      using "1.IH"[OF True] by (subst reply_loop.simps) (simp add: reply_step_warnings)
  next
    case False
    then show ?thesis by (subst reply_loop.simps) simp
  qed
qed

subsection \<open>Lunch, dinner and family time\<close>

lemma place_lunch_cases:
  "(\<exists>b s. blocks (place_lunch t p base st) = blocks st @ [b] \<and> \<not> checkConflict b (blocks st)
        \<and> b_type b = KLunch
        \<and> result (place_lunch t p base st) = result st @ [s] \<and> s_type s = KLunch
        \<and> warnings (place_lunch t p base st) = warnings st)
   \<or> (blocks (place_lunch t p base st) = blocks st
        \<and> result (place_lunch t p base st) = result st
        \<and> warnings (place_lunch t p base st) = warnings st @ [LunchWarning])"
proof (cases "findAvailableSlot (ceil15 (addMs t (6 * 60 * 60000))) 60 (blocks st)
                (Some p) (Some (parseTime ''20:00'' base))")
  case None
  then show ?thesis by (simp add: place_lunch_def Let_def)
next
  case (Some a)
  have "trySlot 60 (blocks st) (Some p) (Some (parseTime ''20:00'' base)) a"
    using findAvailableSlot_trySlot[OF Some] .
  then have "\<not> checkConflict \<lparr>b_start = a, b_end = addMs a (60 * 60000), b_title = Text ''test'',
                     b_type = KTest, b_minutes = Some 60\<rparr> (blocks st)"
    by (simp add: trySlot_def Let_def split: if_splits)
  then have "\<not> checkConflict \<lparr>b_start = a, b_end = addMs a (60 * 60000), b_title = LunchTitle,
                     b_type = KLunch, b_minutes = Some 60\<rparr> (blocks st)"
    by (simp add: checkConflict_def)
  then show ?thesis using Some by (simp add: place_lunch_def Let_def)
qed

lemma dinner_scan_free:
  "dinner_scan mx base bs cs = Some s \<Longrightarrow>
     \<not> checkConflict \<lparr>b_start = s, b_end = addMs s (60 * 60000), b_title = Text ''dinner'',
                     b_type = KDinner, b_minutes = Some 60\<rparr> bs"
  unfolding dinner_scan_find by (drule find_Some_set) simp

lemma place_dinner_cases:
  "(\<exists>b s. blocks (place_dinner base st) = blocks st @ [b] \<and> \<not> checkConflict b (blocks st)
        \<and> b_type b = KDinner
        \<and> result (place_dinner base st) = result st @ [s] \<and> s_type s = KDinner
        \<and> warnings (place_dinner base st) = warnings st)
   \<or> (blocks (place_dinner base st) = blocks st
        \<and> result (place_dinner base st) = result st
        \<and> warnings (place_dinner base st) = warnings st @ [DinnerWarning])"
proof (cases "findDinnerSlot base (blocks st)")
  case None
  then show ?thesis by (simp add: place_dinner_def)
next
  case (Some a)
  have "\<not> checkConflict \<lparr>b_start = a, b_end = addMs a (60 * 60000), b_title = Text ''dinner'',
                     b_type = KDinner, b_minutes = Some 60\<rparr> (blocks st)"
    using Some unfolding findDinnerSlot_def by (rule dinner_scan_free)
  then have "\<not> checkConflict \<lparr>b_start = a, b_end = addMs a (60 * 60000), b_title = DinnerTitle,
                     b_type = KDinner, b_minutes = Some 60\<rparr> (blocks st)"
    by (simp add: checkConflict_def)
  then show ?thesis using Some by (simp add: place_dinner_def Let_def)
qed

lemma place_family_simps:
  "blocks (place_family base st) = blocks st"
  "result (place_family base st) = result st @ [family_slot base]"
  "warnings (place_family base st) = warnings st"
  by (simp_all add: place_family_def)

section \<open>The backlog sweep\<close>

subsection \<open>The scan for one task\<close>

lemma addMs_addMs: "addMs (addMs c a) b = addMs c (a + b)"
  by (simp add: addMs_def split: option.splits)

lemma candidate_0: "candidate c 0 = c"
  by (simp add: candidate_def addMs_0)

lemma candidate_Suc: "candidate c (Suc k) = candidate (addMs c (15 * 60000)) k"
  by (simp add: candidate_def addMs_addMs algebra_simps)

lemma rejected_0: "rejected e task c st 0"
  by (simp add: rejected_def)

lemma rejected_Suc:
  "rejected e task c st (Suc n) =
     (in_day e task c \<and> checkConflict (task_block task c) (blocks st)
      \<and> rejected e task (addMs c (15 * 60000)) st n)"
proof -
  have "(\<forall>k < Suc n. in_day e task (candidate c k)
             \<and> checkConflict (task_block task (candidate c k)) (blocks st))
        = ((in_day e task (candidate c 0)
             \<and> checkConflict (task_block task (candidate c 0)) (blocks st))
           \<and> (\<forall>k < n. in_day e task (candidate c (Suc k))
             \<and> checkConflict (task_block task (candidate c (Suc k))) (blocks st)))"
    by (metis less_Suc_eq_0_disj)
  then show ?thesis
    by (simp add: rejected_def candidate_0 candidate_Suc)
qed

lemma scan_loop_unfold:
  "scan_loop e task c st =
     (if in_day e task c then
        if \<not> checkConflict (task_block task c) (blocks st) then
          (True, addMs c (t_minutes task * 60000),
           st\<lparr>blocks := blocks st @ [task_block task c],
              result := result st @ [task_slot task (task_block task c)]\<rparr>)
        else scan_loop e task (addMs c (15 * 60000)) st
      else (False, c, st))"
  by (subst scan_loop.simps) (simp add: in_day_def Let_def)

lemma scan_loop_spec:
  "\<exists>n. rejected e task c st n \<and>
     (if in_day e task (candidate c n) then
        \<not> checkConflict (task_block task (candidate c n)) (blocks st) \<and>
        scan_loop e task c st =
          (True, addMs (candidate c n) (t_minutes task * 60000),
           st\<lparr>blocks := blocks st @ [task_block task (candidate c n)],
              result := result st @ [task_slot task (task_block task (candidate c n))]\<rparr>)
      else scan_loop e task c st = (False, candidate c n, st))"
proof (induction e task c st rule: scan_loop.induct)
  case (1 e task c st)
  show ?case
  proof (cases "in_day e task c \<and> checkConflict (task_block task c) (blocks st)")
    case False
    then have "rejected e task c st 0 \<and>
     (if in_day e task (candidate c 0) then
        \<not> checkConflict (task_block task (candidate c 0)) (blocks st) \<and>
        scan_loop e task c st =
          (True, addMs (candidate c 0) (t_minutes task * 60000),
           st\<lparr>blocks := blocks st @ [task_block task (candidate c 0)],
              result := result st @ [task_slot task (task_block task (candidate c 0))]\<rparr>)
      else scan_loop e task c st = (False, candidate c 0, st))"
      by (subst (1 2) scan_loop_unfold) (simp add: rejected_0 candidate_0)
    then show ?thesis by blast
  next
    case True
    then have a: "date_lt c e" "\<not> date_gt (addMs c (t_minutes task * 60000)) e"
      "\<not> \<not> checkConflict (task_block task c) (blocks st)"
      by (simp_all add: in_day_def)
    obtain n where n: "rejected e task (addMs c (15 * 60000)) st n"
      "if in_day e task (candidate (addMs c (15 * 60000)) n) then
        \<not> checkConflict (task_block task (candidate (addMs c (15 * 60000)) n)) (blocks st) \<and>
        scan_loop e task (addMs c (15 * 60000)) st =
          (True, addMs (candidate (addMs c (15 * 60000)) n) (t_minutes task * 60000),
           st\<lparr>blocks := blocks st @ [task_block task (candidate (addMs c (15 * 60000)) n)],
              result := result st @
                [task_slot task (task_block task (candidate (addMs c (15 * 60000)) n))]\<rparr>)
      else scan_loop e task (addMs c (15 * 60000)) st
             = (False, candidate (addMs c (15 * 60000)) n, st)"
      using "1.IH"[OF a(1) refl a(2) a(3)] by blast
    have step: "scan_loop e task c st = scan_loop e task (addMs c (15 * 60000)) st"
      using True by (subst scan_loop_unfold) simp
    have "rejected e task c st (Suc n)"
      using True n(1) by (simp add: rejected_Suc)
    moreover have "if in_day e task (candidate c (Suc n)) then
        \<not> checkConflict (task_block task (candidate c (Suc n))) (blocks st) \<and>
        scan_loop e task c st =
          (True, addMs (candidate c (Suc n)) (t_minutes task * 60000),
           st\<lparr>blocks := blocks st @ [task_block task (candidate c (Suc n))],
              result := result st @ [task_slot task (task_block task (candidate c (Suc n)))]\<rparr>)
      else scan_loop e task c st = (False, candidate c (Suc n), st)"
      using n(2) unfolding step candidate_Suc .
    ultimately show ?thesis by blast
  qed
qed

lemma scan_loop_failed:
  assumes "scan_loop e task c st = (False, c', st')"
  shows "st' = st \<and> (\<exists>n. c' = candidate c n \<and> rejected e task c st n
                          \<and> \<not> in_day e task (candidate c n))"
proof -
  obtain n where n: "rejected e task c st n"
     "if in_day e task (candidate c n) then
        \<not> checkConflict (task_block task (candidate c n)) (blocks st) \<and>
        scan_loop e task c st =
          (True, addMs (candidate c n) (t_minutes task * 60000),
           st\<lparr>blocks := blocks st @ [task_block task (candidate c n)],
              result := result st @ [task_slot task (task_block task (candidate c n))]\<rparr>)
      else scan_loop e task c st = (False, candidate c n, st)"
    using scan_loop_spec[of e task c st] by blast
  show ?thesis
  proof (cases "in_day e task (candidate c n)")
    case True
    then show ?thesis using n(2) assms by simp
  next
    case False
    then have "scan_loop e task c st = (False, candidate c n, st)" using n(2) by simp
    then show ?thesis using assms n(1) False by auto
  qed
qed

lemma scan_loop_placed:
  assumes "scan_loop e task c st = (True, c', st')"
  shows "\<exists>n. rejected e task c st n \<and> in_day e task (candidate c n)
            \<and> \<not> checkConflict (task_block task (candidate c n)) (blocks st)
            \<and> c' = addMs (candidate c n) (t_minutes task * 60000)
            \<and> st' = st\<lparr>blocks := blocks st @ [task_block task (candidate c n)],
                 result := result st @ [task_slot task (task_block task (candidate c n))]\<rparr>"
proof -
  obtain n where n: "rejected e task c st n"
     "if in_day e task (candidate c n) then
        \<not> checkConflict (task_block task (candidate c n)) (blocks st) \<and>
        scan_loop e task c st =
          (True, addMs (candidate c n) (t_minutes task * 60000),
           st\<lparr>blocks := blocks st @ [task_block task (candidate c n)],
              result := result st @ [task_slot task (task_block task (candidate c n))]\<rparr>)
      else scan_loop e task c st = (False, candidate c n, st)"
    using scan_loop_spec[of e task c st] by blast
  show ?thesis
  proof (cases "in_day e task (candidate c n)")
    case False
    then show ?thesis using n(2) assms by simp
  next
    case True
    then show ?thesis using n assms by (intro exI[of _ n]) auto
  qed
qed

subsection \<open>One task, then all tasks\<close>

lemma place_task_cases:
  "(\<exists>n. fst (scan_loop e task c st)
        \<and> rejected e task c st n \<and> in_day e task (candidate c n)
        \<and> \<not> checkConflict (task_block task (candidate c n)) (blocks st)
        \<and> place_task e (c, st) task =
            (addMs (candidate c n) (t_minutes task * 60000),
             st\<lparr>blocks := blocks st @ [task_block task (candidate c n)],
                result := result st @ [task_slot task (task_block task (candidate c n))]\<rparr>))
   \<or> (\<exists>n. \<not> fst (scan_loop e task c st)
        \<and> rejected e task c st n \<and> \<not> in_day e task (candidate c n)
        \<and> place_task e (c, st) task =
            (candidate c n,
             st\<lparr>warnings := warnings st @ [TaskWarning (t_title task) (t_minutes task)]\<rparr>))"
proof -
  obtain placed c' st' where r: "scan_loop e task c st = (placed, c', st')"
    by (metis prod_cases3)
  show ?thesis
  proof (cases placed)
    case True
    then show ?thesis
      using scan_loop_placed[of e task c st c' st'] r
      by (auto simp: place_task_def)
  next
    case False
    then show ?thesis
      using scan_loop_failed[of e task c st c' st'] r
      by (auto simp: place_task_def)
  qed
qed

lemma place_tasks_Nil: "place_tasks e cs [] = cs"
  by (simp add: place_tasks_def)

lemma place_tasks_Cons: "place_tasks e cs (t # ts) = place_tasks e (place_task e cs t) ts"
  by (simp add: place_tasks_def)

lemma place_tasks_snoc: "place_tasks e cs (ts @ [t]) = place_task e (place_tasks e cs ts) t"
  by (simp add: place_tasks_def)

lemma place_task_blocks:
  "blocks (snd (place_task e cs task)) = blocks (snd cs) \<or>
   (\<exists>b. blocks (snd (place_task e cs task)) = blocks (snd cs) @ [b]
        \<and> \<not> checkConflict b (blocks (snd cs)) \<and> b_type b = KCategory (t_category task))"
  using place_task_cases[of e task "fst cs" "snd cs"]
  by (auto simp: task_block_def)

lemma place_task_conflict_free:
  "conflict_free (blocks (snd cs)) \<Longrightarrow> conflict_free (blocks (snd (place_task e cs task)))"
  using place_task_blocks[of e cs task] by (auto intro: conflict_free_snoc)

lemma place_tasks_conflict_free:
  "conflict_free (blocks (snd cs)) \<Longrightarrow> conflict_free (blocks (snd (place_tasks e cs ts)))"
  by (induction ts arbitrary: cs) (simp_all add: place_tasks_Nil place_tasks_Cons place_task_conflict_free)

lemma place_tasks_blocks:
  "\<exists>bs. blocks (snd (place_tasks e cs ts)) = blocks (snd cs) @ bs
        \<and> (\<forall>b \<in> set bs. \<exists>c. b_type b = KCategory c)"
proof (induction ts arbitrary: cs)
  case Nil
  then show ?case by (simp add: place_tasks_Nil)
next
  case (Cons t ts)
  obtain bs where bs: "blocks (snd (place_tasks e (place_task e cs t) ts))
      = blocks (snd (place_task e cs t)) @ bs" "\<forall>b \<in> set bs. \<exists>c. b_type b = KCategory c"
    using Cons.IH[of "place_task e cs t"] by blast
  from place_task_blocks[of e cs t] show ?case
  proof
    assume "blocks (snd (place_task e cs t)) = blocks (snd cs)"
    then show ?thesis using bs by (simp add: place_tasks_Cons)
  next
    assume "\<exists>b. blocks (snd (place_task e cs t)) = blocks (snd cs) @ [b]
        \<and> \<not> checkConflict b (blocks (snd cs)) \<and> b_type b = KCategory (t_category t)"
    then obtain b where b: "blocks (snd (place_task e cs t)) = blocks (snd cs) @ [b]"
      "b_type b = KCategory (t_category t)" by blast
    have "blocks (snd (place_tasks e cs (t # ts))) = blocks (snd cs) @ (b # bs)"
      using bs(1) b(1) by (simp add: place_tasks_Cons)
    moreover have "\<forall>x \<in> set (b # bs). \<exists>c. b_type x = KCategory c"
      using bs(2) b(2) by auto
    ultimately show ?thesis by blast
  qed
qed

subsection \<open>The working set of a run\<close>

lemma before_backlog_blocks:
  "\<exists>bs. blocks (before_backlog t0 fe) = map (fixed_block (baseDate t0)) fe @ bs
        \<and> (\<forall>b \<in> set bs. b_type b = KReply \<or> b_type b = KLunch \<or> b_type b = KDinner)"
proof -
  define s1 where "s1 = place_fixed (baseDate t0) fe"
  define s2 where "s2 = reply_loop (planStart t0) (parseTime ''20:00'' (baseDate t0)) (planStart t0) s1"
  define s3 where "s3 = place_lunch (Some t0) (planStart t0) (baseDate t0) s2"
  define s4 where "s4 = place_dinner (baseDate t0) s3"
  have b1: "blocks s1 = map (fixed_block (baseDate t0)) fe"
    by (simp add: s1_def place_fixed_def)
  obtain r where r: "blocks s2 = blocks s1 @ r" "\<forall>b \<in> set r. b_type b = KReply"
    unfolding s2_def using reply_loop_blocks by blast
  obtain l where l: "blocks s3 = blocks s2 @ l" "\<forall>b \<in> set l. b_type b = KLunch"
    unfolding s3_def
    using place_lunch_cases[of "Some t0" "planStart t0" "baseDate t0" s2] by fastforce
  obtain d where d: "blocks s4 = blocks s3 @ d" "\<forall>b \<in> set d. b_type b = KDinner"
    unfolding s4_def
    using place_dinner_cases[of "baseDate t0" s3] by fastforce
  have "blocks (before_backlog t0 fe) = blocks s4"
    by (simp add: before_backlog_def place_family_simps s4_def s3_def s2_def s1_def)
  then have "blocks (before_backlog t0 fe) = map (fixed_block (baseDate t0)) fe @ (r @ l @ d)"
    using b1 r(1) l(1) d(1) by simp
  moreover have "\<forall>b \<in> set (r @ l @ d). b_type b = KReply \<or> b_type b = KLunch \<or> b_type b = KDinner"
    using r(2) l(2) d(2) by auto
  ultimately show ?thesis by blast
qed

lemma before_backlog_conflict_free:
  assumes "conflict_free (map (fixed_block (baseDate t0)) fe)"
  shows "conflict_free (blocks (before_backlog t0 fe))"
proof -
  define s1 where "s1 = place_fixed (baseDate t0) fe"
  define s2 where "s2 = reply_loop (planStart t0) (parseTime ''20:00'' (baseDate t0)) (planStart t0) s1"
  define s3 where "s3 = place_lunch (Some t0) (planStart t0) (baseDate t0) s2"
  define s4 where "s4 = place_dinner (baseDate t0) s3"
  have "conflict_free (blocks s1)" using assms by (simp add: s1_def place_fixed_def)
  then have "conflict_free (blocks s2)" unfolding s2_def by (rule reply_loop_conflict_free)
  then have "conflict_free (blocks s3)"
    unfolding s3_def
    using place_lunch_cases[of "Some t0" "planStart t0" "baseDate t0" s2]
    by (auto intro: conflict_free_snoc)
  then have "conflict_free (blocks s4)"
    unfolding s4_def
    using place_dinner_cases[of "baseDate t0" s3]
    by (auto intro: conflict_free_snoc)
  then show ?thesis
    by (simp add: before_backlog_def place_family_simps s4_def s3_def s2_def s1_def)
qed

lemma generate_run_conflict_free:
  assumes "conflict_free (map (fixed_block (baseDate t0)) fe)"
  shows "conflict_free (blocks (snd (generate_run t0 fe tasks)))"
  unfolding generate_run_def
  by (rule place_tasks_conflict_free) (simp add: before_backlog_conflict_free[OF assms])

lemma generate_run_blocks:
  "\<exists>bs. blocks (snd (generate_run t0 fe tasks)) = map (fixed_block (baseDate t0)) fe @ bs
        \<and> (\<forall>b \<in> set bs. b_type b \<noteq> KFamily \<and> b_type b \<noteq> KFixed)"
proof -
  obtain bs1 where bs1: "blocks (before_backlog t0 fe) = map (fixed_block (baseDate t0)) fe @ bs1"
     "\<forall>b \<in> set bs1. b_type b = KReply \<or> b_type b = KLunch \<or> b_type b = KDinner"
    using before_backlog_blocks by blast
  obtain bs2 where bs2: "blocks (snd (generate_run t0 fe tasks)) = blocks (before_backlog t0 fe) @ bs2"
     "\<forall>b \<in> set bs2. \<exists>c. b_type b = KCategory c"
    unfolding generate_run_def
    using place_tasks_blocks[of "parseTime ''20:00'' (baseDate t0)"
        "(planStart t0, before_backlog t0 fe)" "tasksToPlace tasks"] by auto
  have "blocks (snd (generate_run t0 fe tasks)) = map (fixed_block (baseDate t0)) fe @ (bs1 @ bs2)"
    using bs1(1) bs2(1) by simp
  moreover have "\<forall>b \<in> set (bs1 @ bs2). b_type b \<noteq> KFamily \<and> b_type b \<noteq> KFixed"
    using bs1(2) bs2(2) by auto
  ultimately show ?thesis by blast
qed

lemma clear_from_length: "clear_from (length bs) bs"
  unfolding clear_from_def by (metis leD)

lemma clear_from_snoc:
  assumes "clear_from n bs" "\<not> checkConflict b bs"
  shows "clear_from n (bs @ [b])"
  unfolding clear_from_def
proof (intro allI impI)
  fix i j
  assume a: "i < j \<and> n \<le> j \<and> j < length (bs @ [b])"
  show "\<not> overlaps ((bs @ [b]) ! i) ((bs @ [b]) ! j)
        \<and> \<not> overlaps ((bs @ [b]) ! j) ((bs @ [b]) ! i)"
  proof (cases "j < length bs")
    case True
    then show ?thesis
      using a assms(1) by (simp add: clear_from_def nth_append)
  next
    case False
    then have j: "j = length bs" using a by simp
    then have i: "i < length bs" using a by simp
    have "\<not> overlaps b (bs ! i)"
      using assms(2) i unfolding checkConflict_iff by (metis nth_mem)
    then show ?thesis
      using i j overlaps_sym[of b "bs ! i"] by (simp add: nth_append)
  qed
qed

lemma clear_from_step:
  assumes "clear_from n bs"
    and "bs' = bs \<or> (\<exists>b. bs' = bs @ [b] \<and> \<not> checkConflict b bs \<and> P b)"
  shows "clear_from n bs'"
  using assms clear_from_snoc by blast

lemma reply_step_clear:
  "clear_from n (blocks st) \<Longrightarrow> clear_from n (blocks (reply_step p e c st))"
  by (rule clear_from_step[OF _ reply_step_blocks])

lemma reply_loop_clear:
  "clear_from n (blocks st) \<Longrightarrow> clear_from n (blocks (reply_loop p e c st))"
proof (induction p e c st rule: reply_loop.induct)
  case (1 p e c st)
  show ?case
  proof (cases "date_lt c e")
    case True
    then show ?thesis
      using "1.IH"[OF True reply_step_clear[OF "1.prems"]]
      by (subst reply_loop.simps) simp
  next
    case False
    then show ?thesis using "1.prems" by (subst reply_loop.simps) simp
  qed
qed

lemma place_lunch_clear:
  assumes "clear_from n (blocks st)"
  shows "clear_from n (blocks (place_lunch t p base st))"
proof -
  have "blocks (place_lunch t p base st) = blocks st
        \<or> (\<exists>b. blocks (place_lunch t p base st) = blocks st @ [b]
               \<and> \<not> checkConflict b (blocks st) \<and> b_type b = KLunch)"
    using place_lunch_cases[of t p base st] by blast
  then show ?thesis by (rule clear_from_step[OF assms])
qed

lemma place_dinner_clear:
  assumes "clear_from n (blocks st)"
  shows "clear_from n (blocks (place_dinner base st))"
proof -
  have "blocks (place_dinner base st) = blocks st
        \<or> (\<exists>b. blocks (place_dinner base st) = blocks st @ [b]
               \<and> \<not> checkConflict b (blocks st) \<and> b_type b = KDinner)"
    using place_dinner_cases[of base st] by blast
  then show ?thesis by (rule clear_from_step[OF assms])
qed

lemma place_task_clear:
  "clear_from n (blocks (snd cs)) \<Longrightarrow> clear_from n (blocks (snd (place_task e cs task)))"
  by (rule clear_from_step[OF _ place_task_blocks])

lemma place_tasks_clear:
  "clear_from n (blocks (snd cs)) \<Longrightarrow> clear_from n (blocks (snd (place_tasks e cs ts)))"
  by (induction ts arbitrary: cs) (simp_all add: place_tasks_Nil place_tasks_Cons place_task_clear)

lemma before_backlog_clear: "clear_from (length fe) (blocks (before_backlog t0 fe))"
proof -
  define s1 where "s1 = place_fixed (baseDate t0) fe"
  define s2 where "s2 = reply_loop (planStart t0) (parseTime ''20:00'' (baseDate t0)) (planStart t0) s1"
  define s3 where "s3 = place_lunch (Some t0) (planStart t0) (baseDate t0) s2"
  define s4 where "s4 = place_dinner (baseDate t0) s3"
  have "blocks s1 = map (fixed_block (baseDate t0)) fe"
    unfolding s1_def by (simp add: place_fixed_def)
  then have "clear_from (length fe) (blocks s1)"
    using clear_from_length[of "blocks s1"] by simp
  then have "clear_from (length fe) (blocks s2)" unfolding s2_def by (rule reply_loop_clear)
  then have "clear_from (length fe) (blocks s3)" unfolding s3_def by (rule place_lunch_clear)
  then have "clear_from (length fe) (blocks s4)" unfolding s4_def by (rule place_dinner_clear)
  moreover have "blocks (before_backlog t0 fe) = blocks s4"
    unfolding before_backlog_def s4_def s3_def s2_def s1_def by (rule place_family_simps(1))
  ultimately show ?thesis by simp
qed

lemma sweep_before_clear: "clear_from (length fe) (blocks (snd (sweep_before t0 fe tasks k)))"
  unfolding sweep_before_def
  by (rule place_tasks_clear) (simp add: before_backlog_clear)

lemma generate_run_clear: "clear_from (length fe) (blocks (snd (generate_run t0 fe tasks)))"
  unfolding generate_run_def
  by (rule place_tasks_clear) (simp add: before_backlog_clear)

lemma generate_run_fixed_first:
  "take (length fe) (blocks (snd (generate_run t0 fe tasks))) = map (fixed_block (baseDate t0)) fe"
proof -
  obtain bs where "blocks (snd (generate_run t0 fe tasks)) = map (fixed_block (baseDate t0)) fe @ bs"
    using generate_run_blocks by blast
  then show ?thesis by simp
qed

text \<open>
  C1. As stated the claim fails: the fixed events enter the working set without any
  check, so two fixed events that overlap are both in it.
\<close>

theorem overlapping_fixed_events_counterexample:
  "overlaps
     (blocks (snd (generate_run 32400000
        [\<lparr>e_start = ''12:00'', e_end = ''13:00'', e_title = ''review''\<rparr>,
         \<lparr>e_start = ''12:30'', e_end = ''13:30'', e_title = ''call''\<rparr>] [])) ! 0)
     (blocks (snd (generate_run 32400000
        [\<lparr>e_start = ''12:00'', e_end = ''13:00'', e_title = ''review''\<rparr>,
         \<lparr>e_start = ''12:30'', e_end = ''13:30'', e_title = ''call''\<rparr>] [])) ! 1)
   \<and> \<not> conflict_free
     (blocks (snd (generate_run 32400000
        [\<lparr>e_start = ''12:00'', e_end = ''13:00'', e_title = ''review''\<rparr>,
         \<lparr>e_start = ''12:30'', e_end = ''13:30'', e_title = ''call''\<rparr>] [])))"
  by code_simp

lemma length_tasksToPlace: "length (tasksToPlace tasks) = length tasks"
proof -
  have "filter (\<lambda>t. t_minutes t < 45) tasks = filter (\<lambda>t. \<not> 45 \<le> t_minutes t) tasks"
    by (rule filter_cong) auto
  then show ?thesis
    unfolding tasksToPlace_def
    using sum_length_filter_compl[of "\<lambda>t. 45 \<le> t_minutes t" tasks] by simp
qed

text \<open>
  C1, amended. The fixed events are the first blocks of the working set, in the order
  given. Every block after them (a reply window, lunch, dinner or a backlog item)
  overlaps no block committed before it, fixed events included, whatever the fixed
  events are; this holds whenever the \<open>for\<close> loop of the backlog sweep reaches a task
  and when the run ends. So two blocks of the working set overlap only if both are fixed
  events, and when no two fixed events overlap, no two blocks of the working set
  overlap, at any of these moments and in every initial part of the final working set
  (every commit appends one block, so the working set at any moment is such a part).
\<close>

theorem working_set_conflict_free:
  "take (length fixedEvents) (blocks (snd (generate_run t0 fixedEvents tasks)))
     = map (fixed_block (baseDate t0)) fixedEvents
   \<and> sweep_before t0 fixedEvents tasks (length tasks) = generate_run t0 fixedEvents tasks
   \<and> (\<forall>i j. i < j \<and> length fixedEvents \<le> j
            \<and> j < length (blocks (snd (sweep_before t0 fixedEvents tasks k)))
          \<longrightarrow> \<not> overlaps (blocks (snd (sweep_before t0 fixedEvents tasks k)) ! i)
                          (blocks (snd (sweep_before t0 fixedEvents tasks k)) ! j)
            \<and> \<not> overlaps (blocks (snd (sweep_before t0 fixedEvents tasks k)) ! j)
                          (blocks (snd (sweep_before t0 fixedEvents tasks k)) ! i))
   \<and> (\<forall>i j. i < j \<and> length fixedEvents \<le> j
            \<and> j < length (blocks (snd (generate_run t0 fixedEvents tasks)))
          \<longrightarrow> \<not> overlaps (blocks (snd (generate_run t0 fixedEvents tasks)) ! i)
                          (blocks (snd (generate_run t0 fixedEvents tasks)) ! j)
            \<and> \<not> overlaps (blocks (snd (generate_run t0 fixedEvents tasks)) ! j)
                          (blocks (snd (generate_run t0 fixedEvents tasks)) ! i))
   \<and> (conflict_free (map (fixed_block (baseDate t0)) fixedEvents) \<longrightarrow>
        conflict_free (blocks (snd (sweep_before t0 fixedEvents tasks k)))
        \<and> conflict_free (blocks (snd (generate_run t0 fixedEvents tasks)))
        \<and> conflict_free (take n (blocks (snd (generate_run t0 fixedEvents tasks))))
        \<and> (\<forall>i j. i < j \<and> j < length (blocks (snd (generate_run t0 fixedEvents tasks)))
               \<longrightarrow> \<not> overlaps (blocks (snd (generate_run t0 fixedEvents tasks)) ! i)
                               (blocks (snd (generate_run t0 fixedEvents tasks)) ! j)))"
proof -
  have e: "sweep_before t0 fixedEvents tasks (length tasks) = generate_run t0 fixedEvents tasks"
    by (simp add: sweep_before_def generate_run_def length_tasksToPlace)
  have c: "conflict_free (blocks (snd (sweep_before t0 fixedEvents tasks k)))
        \<and> conflict_free (blocks (snd (generate_run t0 fixedEvents tasks)))
        \<and> conflict_free (take n (blocks (snd (generate_run t0 fixedEvents tasks))))
        \<and> (\<forall>i j. i < j \<and> j < length (blocks (snd (generate_run t0 fixedEvents tasks)))
               \<longrightarrow> \<not> overlaps (blocks (snd (generate_run t0 fixedEvents tasks)) ! i)
                               (blocks (snd (generate_run t0 fixedEvents tasks)) ! j))"
    if h: "conflict_free (map (fixed_block (baseDate t0)) fixedEvents)"
  proof -
    have a: "conflict_free (blocks (snd (sweep_before t0 fixedEvents tasks k)))"
      unfolding sweep_before_def
      by (rule place_tasks_conflict_free) (simp add: before_backlog_conflict_free[OF h])
    have b: "conflict_free (blocks (snd (generate_run t0 fixedEvents tasks)))"
      by (rule generate_run_conflict_free[OF h])
    show ?thesis
      using a b conflict_free_take[OF b, of n] b[unfolded conflict_free_pairwise] by blast
  qed
  then have c': "conflict_free (map (fixed_block (baseDate t0)) fixedEvents) \<longrightarrow>
        conflict_free (blocks (snd (sweep_before t0 fixedEvents tasks k)))
        \<and> conflict_free (blocks (snd (generate_run t0 fixedEvents tasks)))
        \<and> conflict_free (take n (blocks (snd (generate_run t0 fixedEvents tasks))))
        \<and> (\<forall>i j. i < j \<and> j < length (blocks (snd (generate_run t0 fixedEvents tasks)))
               \<longrightarrow> \<not> overlaps (blocks (snd (generate_run t0 fixedEvents tasks)) ! i)
                               (blocks (snd (generate_run t0 fixedEvents tasks)) ! j))"
    by (rule impI)
  show ?thesis
    using generate_run_fixed_first[of fixedEvents t0 tasks] e
      sweep_before_clear[of fixedEvents t0 tasks k, unfolded clear_from_def]
      generate_run_clear[of fixedEvents t0 tasks, unfolded clear_from_def] c'
    by (intro conjI)
qed

theorem working_set_conflict_free_witness:
  "(1 :: nat) < 2
   \<and> length [\<lparr>e_start = ''12:00'', e_end = ''13:00'', e_title = ''review''\<rparr>,
              \<lparr>e_start = ''12:30'', e_end = ''13:30'', e_title = ''call''\<rparr>] \<le> 2
   \<and> 2 < length (blocks (snd (generate_run 32400000
        [\<lparr>e_start = ''12:00'', e_end = ''13:00'', e_title = ''review''\<rparr>,
         \<lparr>e_start = ''12:30'', e_end = ''13:30'', e_title = ''call''\<rparr>]
        [\<lparr>t_title = ''B'', t_category = Chore, t_minutes = 30, t_priority = Some High\<rparr>])))
   \<and> \<not> overlaps
       (blocks (snd (generate_run 32400000
        [\<lparr>e_start = ''12:00'', e_end = ''13:00'', e_title = ''review''\<rparr>,
         \<lparr>e_start = ''12:30'', e_end = ''13:30'', e_title = ''call''\<rparr>]
        [\<lparr>t_title = ''B'', t_category = Chore, t_minutes = 30, t_priority = Some High\<rparr>])) ! 1)
       (blocks (snd (generate_run 32400000
        [\<lparr>e_start = ''12:00'', e_end = ''13:00'', e_title = ''review''\<rparr>,
         \<lparr>e_start = ''12:30'', e_end = ''13:30'', e_title = ''call''\<rparr>]
        [\<lparr>t_title = ''B'', t_category = Chore, t_minutes = 30, t_priority = Some High\<rparr>])) ! 2)
   \<and> conflict_free (map (fixed_block (baseDate 32400000))
        [\<lparr>e_start = ''12:00'', e_end = ''13:00'', e_title = ''review''\<rparr>,
         \<lparr>e_start = ''13:00'', e_end = ''13:30'', e_title = ''call''\<rparr>])
   \<and> conflict_free (blocks (snd (generate_run 32400000
        [\<lparr>e_start = ''12:00'', e_end = ''13:00'', e_title = ''review''\<rparr>,
         \<lparr>e_start = ''13:00'', e_end = ''13:30'', e_title = ''call''\<rparr>]
        [\<lparr>t_title = ''B'', t_category = Chore, t_minutes = 30, t_priority = Some High\<rparr>])))"
proof -
  have l: "2 < length (blocks (snd (generate_run 32400000
        [\<lparr>e_start = ''12:00'', e_end = ''13:00'', e_title = ''review''\<rparr>,
         \<lparr>e_start = ''12:30'', e_end = ''13:30'', e_title = ''call''\<rparr>]
        [\<lparr>t_title = ''B'', t_category = Chore, t_minutes = 30, t_priority = Some High\<rparr>])))"
    by code_simp
  have h: "conflict_free (map (fixed_block (baseDate 32400000))
        [\<lparr>e_start = ''12:00'', e_end = ''13:00'', e_title = ''review''\<rparr>,
         \<lparr>e_start = ''13:00'', e_end = ''13:30'', e_title = ''call''\<rparr>])"
    by code_simp
  have p: "(1 :: nat) < 2 \<and>
     length [\<lparr>e_start = ''12:00'', e_end = ''13:00'', e_title = ''review''\<rparr>,
              \<lparr>e_start = ''12:30'', e_end = ''13:30'', e_title = ''call''\<rparr>] \<le> 2"
    by simp
  show ?thesis
    using working_set_conflict_free
        [of "[\<lparr>e_start = ''12:00'', e_end = ''13:00'', e_title = ''review''\<rparr>,
              \<lparr>e_start = ''12:30'', e_end = ''13:30'', e_title = ''call''\<rparr>]" 32400000
            "[\<lparr>t_title = ''B'', t_category = Chore, t_minutes = 30,
               t_priority = Some High\<rparr>]" 0 0]
      working_set_conflict_free
        [of "[\<lparr>e_start = ''12:00'', e_end = ''13:00'', e_title = ''review''\<rparr>,
              \<lparr>e_start = ''13:00'', e_end = ''13:30'', e_title = ''call''\<rparr>]" 32400000
            "[\<lparr>t_title = ''B'', t_category = Chore, t_minutes = 30,
               t_priority = Some High\<rparr>]" 0 0]
      l h p
    by blast
qed

subsection \<open>The output of a run\<close>

lemma baseDate_eq: "baseDate t0 = Some (t0 - t0 mod 86400000)"
  by (simp add: baseDate_def setHours_def)

lemma day_start_mod: "((t0::int) - t0 mod 86400000) mod 86400000 = 0"
  by (simp add: minus_mod_eq_mult_div)

lemma dayEnd_eq: "parseTime ''20:00'' (baseDate t0) = Some (t0 - t0 mod 86400000 + 72000000)"
  by (simp only: baseDate_eq parse_clock_literals day_start_mod diff_zero)

lemma midnight_eq: "parseTime ''24:00'' (baseDate t0) = Some (t0 - t0 mod 86400000 + 86400000)"
  by (simp only: baseDate_eq parse_clock_literals day_start_mod diff_zero)

lemma clock_of_day:
  "getHours (t0 - t0 mod 86400000 + m * 60000) = (m div 60) mod 24"
  "getMinutes (t0 - t0 mod 86400000 + m * 60000) = m mod 60"
proof -
  define q where "q = t0 div 86400000"
  have d: "t0 - t0 mod 86400000 + m * 60000 = 60000 * (1440 * q + m)"
    by (simp add: minus_mod_eq_mult_div q_def)
  have e: "1440 * q + m = 60 * (24 * q) + m" by simp
  have m: "(1440 * q + m) div 60 = 24 * q + m div 60"
    unfolding e by (simp only: div_mult_self4)
  have "(t0 - t0 mod 86400000 + m * 60000) div 3600000 = (1440 * q + m) div 60"
    unfolding d by (simp add: div_mult2_eq[symmetric])
  then show "getHours (t0 - t0 mod 86400000 + m * 60000) = (m div 60) mod 24"
    unfolding getHours_def m by (simp only: mod_mult_self4)
  have "60000 * (1440 * q + m) div 60000 = 1440 * q + m"
    by simp
  moreover have "(1440 * q + m) mod 60 = m mod 60"
    unfolding e by (simp only: mod_mult_self4)
  ultimately show "getMinutes (t0 - t0 mod 86400000 + m * 60000) = m mod 60"
    unfolding getMinutes_def d by (simp only:)
qed

lemma formatTime_20: "formatTime (Some (t0 - t0 mod 86400000 + 72000000)) = ''20:00''"
proof -
  have "getHours (t0 - t0 mod 86400000 + 72000000) = 20"
       "getMinutes (t0 - t0 mod 86400000 + 72000000) = 0"
    using clock_of_day[of t0 1200] by simp_all
  then show ?thesis
    by (simp add: formatTime_def pad2_def digit_char_def char_of_def)
qed

lemma formatTime_24: "formatTime (Some (t0 - t0 mod 86400000 + 86400000)) = ''00:00''"
proof -
  have "getHours (t0 - t0 mod 86400000 + 86400000) = 0"
       "getMinutes (t0 - t0 mod 86400000 + 86400000) = 0"
    using clock_of_day[of t0 1440] by simp_all
  then show ?thesis
    by (simp add: formatTime_def pad2_def digit_char_def char_of_def)
qed

lemma family_slot_eq:
  "family_slot (baseDate t0) =
     \<lparr>s_start = ''20:00'', s_end = ''00:00'', s_title = FamilyTitle, s_type = KFamily,
      s_color = ''#8b5cf6''\<rparr>"
  by (simp add: family_slot_def Let_def dayEnd_eq midnight_eq formatTime_20 formatTime_24)

lemma place_task_result_grows:
  "\<exists>rs. result (snd (place_task e cs task)) = result (snd cs) @ rs"
  using place_task_cases[of e task "fst cs" "snd cs"] by auto

lemma place_tasks_result_grows:
  "\<exists>rs. result (snd (place_tasks e cs ts)) = result (snd cs) @ rs"
proof (induction ts arbitrary: cs)
  case Nil
  then show ?case by (simp add: place_tasks_Nil)
next
  case (Cons t ts)
  obtain r1 where "result (snd (place_task e cs t)) = result (snd cs) @ r1"
    using place_task_result_grows by blast
  moreover obtain r2 where "result (snd (place_tasks e (place_task e cs t) ts))
      = result (snd (place_task e cs t)) @ r2"
    using Cons.IH by blast
  ultimately show ?case by (simp add: place_tasks_Cons)
qed

lemma family_slot_in_schedule:
  "family_slot (baseDate t0) \<in> set (schedule (generate t0 fe tasks))"
proof -
  have "family_slot (baseDate t0) \<in> set (result (before_backlog t0 fe))"
    by (simp add: before_backlog_def place_family_simps)
  moreover obtain rs where "result (snd (generate_run t0 fe tasks))
      = result (before_backlog t0 fe) @ rs"
    unfolding generate_run_def
    using place_tasks_result_grows[of "parseTime ''20:00'' (baseDate t0)"
        "(planStart t0, before_backlog t0 fe)"] by auto
  ultimately show ?thesis by (simp add: generate_def Let_def)
qed

text \<open>
  C8. As stated the claim fails on the end of the slot: the end of family time is
  midnight of the following day, and \<open>formatTime\<close> writes it 00:00, so no slot of the
  output ends at the clock string 24:00.
\<close>

theorem family_slot_end_counterexample:
  "''24:00'' \<notin> set (map s_end (schedule (generate 32400000 [] [])))
   \<and> map s_end (filter (\<lambda>s. s_type s = KFamily) (schedule (generate 32400000 [] [])))
       = [''00:00'']"
  by code_simp

text \<open>
  C8, amended. The output of every run contains the family-time slot, whose start is
  the clock string 20:00 and whose end is the clock string 00:00. Appending it leaves
  the working set as it is, and no block of the working set of a run is a family block.
\<close>

theorem family_slot_in_output:
  "family_slot (baseDate t0) =
     \<lparr>s_start = ''20:00'', s_end = ''00:00'', s_title = FamilyTitle, s_type = KFamily,
      s_color = ''#8b5cf6''\<rparr>
   \<and> family_slot (baseDate t0) \<in> set (schedule (generate t0 fixedEvents tasks))
   \<and> blocks (place_family base st) = blocks st
   \<and> (\<forall>b \<in> set (blocks (snd (generate_run t0 fixedEvents tasks))). b_type b \<noteq> KFamily)"
proof -
  obtain bs where bs: "blocks (snd (generate_run t0 fixedEvents tasks))
        = map (fixed_block (baseDate t0)) fixedEvents @ bs"
     "\<forall>b \<in> set bs. b_type b \<noteq> KFamily \<and> b_type b \<noteq> KFixed"
    using generate_run_blocks by blast
  have "\<forall>b \<in> set (blocks (snd (generate_run t0 fixedEvents tasks))). b_type b \<noteq> KFamily"
    unfolding bs(1) using bs(2) by (auto simp: fixed_block_def)
  then show ?thesis
    using family_slot_eq[of t0] family_slot_in_schedule[of t0 fixedEvents tasks]
      place_family_simps(1)[of base st]
    by blast
qed

theorem family_slot_in_output_witness:
  "\<lparr>s_start = ''20:00'', s_end = ''00:00'', s_title = FamilyTitle, s_type = KFamily,
      s_color = ''#8b5cf6''\<rparr>
     \<in> set (schedule (generate 32400000
           [\<lparr>e_start = ''20:00'', e_end = ''24:00'', e_title = ''banquet''\<rparr>] []))
   \<and> DinnerWarning \<in> set (r_warnings (generate 32400000
           [\<lparr>e_start = ''20:00'', e_end = ''24:00'', e_title = ''banquet''\<rparr>] []))
   \<and> blocks (snd (generate_run 32400000
           [\<lparr>e_start = ''20:00'', e_end = ''24:00'', e_title = ''banquet''\<rparr>] [])) \<noteq> []
   \<and> b_type (hd (blocks (snd (generate_run 32400000
           [\<lparr>e_start = ''20:00'', e_end = ''24:00'', e_title = ''banquet''\<rparr>] [])))) \<noteq> KFamily"
proof -
  have w: "DinnerWarning \<in> set (r_warnings (generate 32400000
           [\<lparr>e_start = ''20:00'', e_end = ''24:00'', e_title = ''banquet''\<rparr>] []))"
    by code_simp
  have n: "blocks (snd (generate_run 32400000
           [\<lparr>e_start = ''20:00'', e_end = ''24:00'', e_title = ''banquet''\<rparr>] [])) \<noteq> []"
    by code_simp
  show ?thesis
    using family_slot_in_output [of 32400000
        "[\<lparr>e_start = ''20:00'', e_end = ''24:00'', e_title = ''banquet''\<rparr>]" "[]"] w n
    by (metis hd_in_set)
qed

subsection \<open>Slots and warnings of a run\<close>

lemma place_task_account:
  "(\<exists>s. result (snd (place_task e cs task)) = result (snd cs) @ [s] \<and> is_task_slot s
        \<and> warnings (snd (place_task e cs task)) = warnings (snd cs))
   \<or> (result (snd (place_task e cs task)) = result (snd cs)
        \<and> warnings (snd (place_task e cs task))
            = warnings (snd cs) @ [TaskWarning (t_title task) (t_minutes task)])"
  using place_task_cases[of e task "fst cs" "snd cs"]
  by (auto simp: task_slot_def is_task_slot_def)

lemma place_tasks_account:
  "\<exists>rs ws. result (snd (place_tasks e cs ts)) = result (snd cs) @ rs
      \<and> warnings (snd (place_tasks e cs ts)) = warnings (snd cs) @ ws
      \<and> (\<forall>s \<in> set rs. is_task_slot s)
      \<and> (\<forall>w \<in> set ws. \<exists>t \<in> set ts. w = TaskWarning (t_title t) (t_minutes t))
      \<and> length rs + length ws = length ts"
proof (induction ts arbitrary: cs)
  case Nil
  then show ?case by (simp add: place_tasks_Nil)
next
  case (Cons t ts)
  obtain rs ws where ih:
    "result (snd (place_tasks e (place_task e cs t) ts)) = result (snd (place_task e cs t)) @ rs"
    "warnings (snd (place_tasks e (place_task e cs t) ts))
       = warnings (snd (place_task e cs t)) @ ws"
    "\<forall>s \<in> set rs. is_task_slot s"
    "\<forall>w \<in> set ws. \<exists>t \<in> set ts. w = TaskWarning (t_title t) (t_minutes t)"
    "length rs + length ws = length ts"
    using Cons.IH[of "place_task e cs t"] by blast
  from place_task_account[of e cs t] show ?case
  proof
    assume "\<exists>s. result (snd (place_task e cs t)) = result (snd cs) @ [s] \<and> is_task_slot s
        \<and> warnings (snd (place_task e cs t)) = warnings (snd cs)"
    then obtain s where s: "result (snd (place_task e cs t)) = result (snd cs) @ [s]"
      "is_task_slot s" "warnings (snd (place_task e cs t)) = warnings (snd cs)" by blast
    have "result (snd (place_tasks e cs (t # ts))) = result (snd cs) @ (s # rs)"
      "warnings (snd (place_tasks e cs (t # ts))) = warnings (snd cs) @ ws"
      using ih(1,2) s(1,3) by (simp_all add: place_tasks_Cons)
    moreover have "\<forall>x \<in> set (s # rs). is_task_slot x" using ih(3) s(2) by simp
    moreover have "\<forall>w \<in> set ws. \<exists>x \<in> set (t # ts). w = TaskWarning (t_title x) (t_minutes x)"
      using ih(4) by auto
    moreover have "length (s # rs) + length ws = length (t # ts)" using ih(5) by simp
    ultimately show ?thesis
      by (intro exI[of _ "s # rs"] exI[of _ ws] conjI)
  next
    assume a: "result (snd (place_task e cs t)) = result (snd cs)
        \<and> warnings (snd (place_task e cs t))
            = warnings (snd cs) @ [TaskWarning (t_title t) (t_minutes t)]"
    have "result (snd (place_tasks e cs (t # ts))) = result (snd cs) @ rs"
      "warnings (snd (place_tasks e cs (t # ts)))
         = warnings (snd cs) @ (TaskWarning (t_title t) (t_minutes t) # ws)"
      using ih(1,2) a by (simp_all add: place_tasks_Cons)
    moreover have "\<forall>w \<in> set (TaskWarning (t_title t) (t_minutes t) # ws).
        \<exists>x \<in> set (t # ts). w = TaskWarning (t_title x) (t_minutes x)"
      using ih(4) by auto
    moreover have "length rs + length (TaskWarning (t_title t) (t_minutes t) # ws) = length (t # ts)"
      using ih(5) by simp
    ultimately show ?thesis using ih(3)
      by (intro exI[of _ rs] exI[of _ "TaskWarning (t_title t) (t_minutes t) # ws"] conjI)
  qed
qed

lemma place_lunch_account:
  "\<exists>ls lw. result (place_lunch t p base st) = result st @ ls
     \<and> warnings (place_lunch t p base st) = warnings st @ lw
     \<and> ((\<exists>s. ls = [s] \<and> s_type s = KLunch \<and> lw = []) \<or> (ls = [] \<and> lw = [LunchWarning]))"
  using place_lunch_cases[of t p base st]
proof (elim disjE exE conjE)
  fix b s
  assume "result (place_lunch t p base st) = result st @ [s]" "s_type s = KLunch"
    "warnings (place_lunch t p base st) = warnings st"
  then show ?thesis by (intro exI[of _ "[s]"] exI[of _ "[]"]) simp
next
  assume "result (place_lunch t p base st) = result st"
    "warnings (place_lunch t p base st) = warnings st @ [LunchWarning]"
  then show ?thesis by (intro exI[of _ "[]"] exI[of _ "[LunchWarning]"]) simp
qed

lemma place_dinner_account:
  "\<exists>ds dw. result (place_dinner base st) = result st @ ds
     \<and> warnings (place_dinner base st) = warnings st @ dw
     \<and> ((\<exists>s. ds = [s] \<and> s_type s = KDinner \<and> dw = []) \<or> (ds = [] \<and> dw = [DinnerWarning]))"
  using place_dinner_cases[of base st]
proof (elim disjE exE conjE)
  fix b s
  assume "result (place_dinner base st) = result st @ [s]" "s_type s = KDinner"
    "warnings (place_dinner base st) = warnings st"
  then show ?thesis by (intro exI[of _ "[s]"] exI[of _ "[]"]) simp
next
  assume "result (place_dinner base st) = result st"
    "warnings (place_dinner base st) = warnings st @ [DinnerWarning]"
  then show ?thesis by (intro exI[of _ "[]"] exI[of _ "[DinnerWarning]"]) simp
qed

lemma before_backlog_account:
  "\<exists>rs ls ds lw dw.
     result (before_backlog t0 fe)
       = map fixed_slot fe @ rs @ ls @ ds @ [family_slot (baseDate t0)]
     \<and> warnings (before_backlog t0 fe) = lw @ dw
     \<and> (\<forall>s \<in> set rs. s_type s = KReply)
     \<and> ((\<exists>s. ls = [s] \<and> s_type s = KLunch \<and> lw = []) \<or> (ls = [] \<and> lw = [LunchWarning]))
     \<and> ((\<exists>s. ds = [s] \<and> s_type s = KDinner \<and> dw = []) \<or> (ds = [] \<and> dw = [DinnerWarning]))"
proof -
  define s1 where "s1 = place_fixed (baseDate t0) fe"
  define s2 where "s2 = reply_loop (planStart t0) (parseTime ''20:00'' (baseDate t0)) (planStart t0) s1"
  define s3 where "s3 = place_lunch (Some t0) (planStart t0) (baseDate t0) s2"
  define s4 where "s4 = place_dinner (baseDate t0) s3"
  have r1: "result s1 = map fixed_slot fe" "warnings s1 = []"
    by (simp_all add: s1_def place_fixed_def)
  obtain rs where rs: "result s2 = result s1 @ rs" "\<forall>s \<in> set rs. s_type s = KReply"
    unfolding s2_def using reply_loop_result by blast
  have w2: "warnings s2 = []" unfolding s2_def reply_loop_warnings by (rule r1(2))
  obtain ls lw where l: "result s3 = result s2 @ ls" "warnings s3 = warnings s2 @ lw"
     "(\<exists>s. ls = [s] \<and> s_type s = KLunch \<and> lw = []) \<or> (ls = [] \<and> lw = [LunchWarning])"
    unfolding s3_def
    using place_lunch_account[of "Some t0" "planStart t0" "baseDate t0" s2]
    by (elim exE conjE)
  obtain ds dw where d: "result s4 = result s3 @ ds" "warnings s4 = warnings s3 @ dw"
     "(\<exists>s. ds = [s] \<and> s_type s = KDinner \<and> dw = []) \<or> (ds = [] \<and> dw = [DinnerWarning])"
    unfolding s4_def
    using place_dinner_account[of "baseDate t0" s3]
    by (elim exE conjE)
  have "before_backlog t0 fe = place_family (baseDate t0) s4"
    by (simp add: before_backlog_def s4_def s3_def s2_def s1_def)
  then have "result (before_backlog t0 fe)
       = map fixed_slot fe @ rs @ ls @ ds @ [family_slot (baseDate t0)]"
     "warnings (before_backlog t0 fe) = lw @ dw"
    using r1 rs(1) w2 l(1,2) d(1,2) by (simp_all add: place_family_simps)
  then show ?thesis using rs(2) l(3) d(3)
    by (intro exI[of _ rs] exI[of _ ls] exI[of _ ds] exI[of _ lw] exI[of _ dw] conjI)
qed


lemma generate_run_account:
  "\<exists>rs ls ds lw dw ts tw.
     result (snd (generate_run t0 fe tasks))
       = map fixed_slot fe @ rs @ ls @ ds @ [family_slot (baseDate t0)] @ ts
     \<and> warnings (snd (generate_run t0 fe tasks)) = lw @ dw @ tw
     \<and> (\<forall>s \<in> set rs. s_type s = KReply)
     \<and> ((\<exists>s. ls = [s] \<and> s_type s = KLunch \<and> lw = []) \<or> (ls = [] \<and> lw = [LunchWarning]))
     \<and> ((\<exists>s. ds = [s] \<and> s_type s = KDinner \<and> dw = []) \<or> (ds = [] \<and> dw = [DinnerWarning]))
     \<and> (\<forall>s \<in> set ts. is_task_slot s)
     \<and> (\<forall>w \<in> set tw. \<exists>t \<in> set tasks. w = TaskWarning (t_title t) (t_minutes t))
     \<and> length ts + length tw = length tasks"
proof -
  obtain rs ls ds lw dw where b:
    "result (before_backlog t0 fe)
       = map fixed_slot fe @ rs @ ls @ ds @ [family_slot (baseDate t0)]"
    "warnings (before_backlog t0 fe) = lw @ dw"
    "\<forall>s \<in> set rs. s_type s = KReply"
    "(\<exists>s. ls = [s] \<and> s_type s = KLunch \<and> lw = []) \<or> (ls = [] \<and> lw = [LunchWarning])"
    "(\<exists>s. ds = [s] \<and> s_type s = KDinner \<and> dw = []) \<or> (ds = [] \<and> dw = [DinnerWarning])"
    using before_backlog_account[of t0 fe] by (elim exE conjE)
  obtain ts tw where t:
    "result (snd (generate_run t0 fe tasks)) = result (before_backlog t0 fe) @ ts"
    "warnings (snd (generate_run t0 fe tasks)) = warnings (before_backlog t0 fe) @ tw"
    "\<forall>s \<in> set ts. is_task_slot s"
    "\<forall>w \<in> set tw. \<exists>t \<in> set (tasksToPlace tasks). w = TaskWarning (t_title t) (t_minutes t)"
    "length ts + length tw = length (tasksToPlace tasks)"
    using place_tasks_account[of "parseTime ''20:00'' (baseDate t0)"
        "(planStart t0, before_backlog t0 fe)" "tasksToPlace tasks"]
    unfolding generate_run_def snd_conv by (elim exE conjE)
  have st: "set (tasksToPlace tasks) = set tasks"
    unfolding tasksToPlace_def by auto
  have "result (snd (generate_run t0 fe tasks))
       = map fixed_slot fe @ rs @ ls @ ds @ [family_slot (baseDate t0)] @ ts"
    "warnings (snd (generate_run t0 fe tasks)) = lw @ dw @ tw"
    using t(1,2) b(1,2) by simp_all
  moreover have "\<forall>w \<in> set tw. \<exists>t \<in> set tasks. w = TaskWarning (t_title t) (t_minutes t)"
    using t(4) unfolding st .
  moreover have "length ts + length tw = length tasks"
    using t(5) by (simp only: length_tasksToPlace)
  ultimately show ?thesis using b(3,4,5) t(3)
    by (intro exI[of _ rs] exI[of _ ls] exI[of _ ds] exI[of _ lw] exI[of _ dw]
        exI[of _ ts] exI[of _ tw] conjI)
qed

lemma filter_none: "\<forall>x \<in> set xs. \<not> P x \<Longrightarrow> filter P xs = []"
  by (induction xs) auto

lemma filter_all: "\<forall>x \<in> set xs. P x \<Longrightarrow> filter P xs = xs"
  by (induction xs) auto

lemma slot_kinds:
  "s_type (fixed_slot ev) = KFixed" "\<not> is_task_slot (fixed_slot ev)"
  "s_type (family_slot base) = KFamily" "\<not> is_task_slot (family_slot base)"
  by (simp_all add: fixed_slot_def family_slot_def is_task_slot_def Let_def)

lemma is_task_slot_kind:
  "is_task_slot s \<Longrightarrow> s_type s \<noteq> KFixed \<and> s_type s \<noteq> KLunch \<and> s_type s \<noteq> KDinner
      \<and> s_type s \<noteq> KFamily \<and> s_type s \<noteq> KReply"
  by (auto simp: is_task_slot_def split: kind.splits)

lemma task_warning_kind:
  "is_task_warning (TaskWarning a b)" "\<not> is_task_warning LunchWarning"
  "\<not> is_task_warning DinnerWarning"
  by (simp_all add: is_task_warning_def)

text \<open>
  C2. \<open>generate\<close> is a total function of the clock reading, the fixed events and the
  tasks: its two \<open>while\<close> loops are defined with their termination proofs, the \<open>for\<close>
  loops run over lists, and no step of the handler raises. Its result accounts for
  everything: one slot per fixed event, one family slot, either a lunch slot or the lunch
  warning, either a dinner slot or the dinner warning, and for every task either a slot
  or a warning with its title and minutes; there is no other warning, and the slots are
  in the order of their start strings.
\<close>

theorem generate_complete_result:
  "length (filter (\<lambda>s. s_type s = KFixed) (schedule (generate t0 fixedEvents tasks)))
     = length fixedEvents
   \<and> length (filter (\<lambda>s. s_type s = KFamily) (schedule (generate t0 fixedEvents tasks))) = 1
   \<and> length (filter (\<lambda>s. s_type s = KLunch) (schedule (generate t0 fixedEvents tasks)))
       + length (filter (\<lambda>w. w = LunchWarning) (r_warnings (generate t0 fixedEvents tasks))) = 1
   \<and> length (filter (\<lambda>s. s_type s = KDinner) (schedule (generate t0 fixedEvents tasks)))
       + length (filter (\<lambda>w. w = DinnerWarning) (r_warnings (generate t0 fixedEvents tasks))) = 1
   \<and> length (filter is_task_slot (schedule (generate t0 fixedEvents tasks)))
       + length (filter is_task_warning (r_warnings (generate t0 fixedEvents tasks)))
       = length tasks
   \<and> (\<forall>w \<in> set (r_warnings (generate t0 fixedEvents tasks)).
         w = LunchWarning \<or> w = DinnerWarning
         \<or> (\<exists>t \<in> set tasks. w = TaskWarning (t_title t) (t_minutes t)))
   \<and> sorted (map s_start (schedule (generate t0 fixedEvents tasks)))"
proof -
  obtain rs ls ds lw dw ts tw where g:
    "result (snd (generate_run t0 fixedEvents tasks))
       = map fixed_slot fixedEvents @ rs @ ls @ ds @ [family_slot (baseDate t0)] @ ts"
    "warnings (snd (generate_run t0 fixedEvents tasks)) = lw @ dw @ tw"
    "\<forall>s \<in> set rs. s_type s = KReply"
    "(\<exists>s. ls = [s] \<and> s_type s = KLunch \<and> lw = []) \<or> (ls = [] \<and> lw = [LunchWarning])"
    "(\<exists>s. ds = [s] \<and> s_type s = KDinner \<and> dw = []) \<or> (ds = [] \<and> dw = [DinnerWarning])"
    "\<forall>s \<in> set ts. is_task_slot s"
    "\<forall>w \<in> set tw. \<exists>t \<in> set tasks. w = TaskWarning (t_title t) (t_minutes t)"
    "length ts + length tw = length tasks"
    using generate_run_account[of t0 fixedEvents tasks] by (elim exE conjE)
  have sch: "\<And>P. length (filter P (schedule (generate t0 fixedEvents tasks)))
      = length (filter P (map fixed_slot fixedEvents)) + length (filter P rs)
        + length (filter P ls) + length (filter P ds)
        + length (filter P [family_slot (baseDate t0)]) + length (filter P ts)"
    by (simp add: generate_def Let_def filter_sort g(1))
  have wrn: "r_warnings (generate t0 fixedEvents tasks) = lw @ dw @ tw"
    by (simp add: generate_def Let_def g(2))
  have fx: "filter (\<lambda>s. s_type s = KFixed) (map fixed_slot fixedEvents) = map fixed_slot fixedEvents"
    "filter (\<lambda>s. s_type s = KFamily) (map fixed_slot fixedEvents) = []"
    "filter (\<lambda>s. s_type s = KLunch) (map fixed_slot fixedEvents) = []"
    "filter (\<lambda>s. s_type s = KDinner) (map fixed_slot fixedEvents) = []"
    "filter is_task_slot (map fixed_slot fixedEvents) = []"
    by (simp_all add: slot_kinds)
  have rp: "filter (\<lambda>s. s_type s = KFixed) rs = []"
    "filter (\<lambda>s. s_type s = KFamily) rs = []"
    "filter (\<lambda>s. s_type s = KLunch) rs = []"
    "filter (\<lambda>s. s_type s = KDinner) rs = []"
    "filter is_task_slot rs = []"
    using g(3) by (auto intro!: filter_none dest: is_task_slot_kind)
  have lu: "filter (\<lambda>s. s_type s = KFixed) ls = []"
    "filter (\<lambda>s. s_type s = KFamily) ls = []"
    "filter (\<lambda>s. s_type s = KDinner) ls = []"
    "filter is_task_slot ls = []"
    "filter (\<lambda>w. w = DinnerWarning) lw = []"
    "filter is_task_warning lw = []"
    "length (filter (\<lambda>s. s_type s = KLunch) ls) + length (filter (\<lambda>w. w = LunchWarning) lw) = 1"
    "\<forall>w \<in> set lw. w = LunchWarning"
    using g(4) by (auto simp: task_warning_kind dest: is_task_slot_kind)
  have di: "filter (\<lambda>s. s_type s = KFixed) ds = []"
    "filter (\<lambda>s. s_type s = KFamily) ds = []"
    "filter (\<lambda>s. s_type s = KLunch) ds = []"
    "filter is_task_slot ds = []"
    "filter (\<lambda>w. w = LunchWarning) dw = []"
    "filter is_task_warning dw = []"
    "length (filter (\<lambda>s. s_type s = KDinner) ds) + length (filter (\<lambda>w. w = DinnerWarning) dw) = 1"
    "\<forall>w \<in> set dw. w = DinnerWarning"
    using g(5) by (auto simp: task_warning_kind dest: is_task_slot_kind)
  have ta: "filter (\<lambda>s. s_type s = KFixed) ts = []"
    "filter (\<lambda>s. s_type s = KFamily) ts = []"
    "filter (\<lambda>s. s_type s = KLunch) ts = []"
    "filter (\<lambda>s. s_type s = KDinner) ts = []"
    "filter is_task_slot ts = ts"
    using g(6) by (auto intro!: filter_none filter_all dest: is_task_slot_kind)
  have tw: "filter (\<lambda>w. w = LunchWarning) tw = []"
    "filter (\<lambda>w. w = DinnerWarning) tw = []"
    "filter is_task_warning tw = tw"
    using g(7) by (auto intro!: filter_none filter_all simp: task_warning_kind)
  have c1: "length (filter (\<lambda>s. s_type s = KFixed) (schedule (generate t0 fixedEvents tasks)))
     = length fixedEvents"
    unfolding sch fx rp lu di ta by (simp add: slot_kinds)
  have c2: "length (filter (\<lambda>s. s_type s = KFamily) (schedule (generate t0 fixedEvents tasks))) = 1"
    unfolding sch fx rp lu di ta by (simp add: slot_kinds)
  have c3: "length (filter (\<lambda>s. s_type s = KLunch) (schedule (generate t0 fixedEvents tasks)))
       + length (filter (\<lambda>w. w = LunchWarning) (r_warnings (generate t0 fixedEvents tasks))) = 1"
    unfolding sch wrn fx rp di ta filter_append tw using lu(7) by (simp add: slot_kinds)
  have c4: "length (filter (\<lambda>s. s_type s = KDinner) (schedule (generate t0 fixedEvents tasks)))
       + length (filter (\<lambda>w. w = DinnerWarning) (r_warnings (generate t0 fixedEvents tasks))) = 1"
    unfolding sch wrn fx rp lu ta filter_append tw using di(7) by (simp add: slot_kinds)
  have c5: "length (filter is_task_slot (schedule (generate t0 fixedEvents tasks)))
       + length (filter is_task_warning (r_warnings (generate t0 fixedEvents tasks)))
       = length tasks"
    unfolding sch wrn fx rp lu di ta filter_append tw using g(8) by (simp add: slot_kinds)
  have c6: "\<forall>w \<in> set (r_warnings (generate t0 fixedEvents tasks)).
         w = LunchWarning \<or> w = DinnerWarning
         \<or> (\<exists>t \<in> set tasks. w = TaskWarning (t_title t) (t_minutes t))"
    unfolding wrn using lu(8) di(8) g(7) by auto
  have c7: "sorted (map s_start (schedule (generate t0 fixedEvents tasks)))"
    by (simp add: generate_def Let_def)
  show ?thesis using c1 c2 c3 c4 c5 c6 c7 by (intro conjI)
qed

theorem generate_complete_result_witness:
  "schedule (generate 32400000 []
      [\<lparr>t_title = ''A'', t_category = Future, t_minutes = 600, t_priority = Some High\<rparr>,
       \<lparr>t_title = ''B'', t_category = Chore, t_minutes = 30, t_priority = Some High\<rparr>])
     = [\<lparr>s_start = ''09:15'', s_end = ''09:30'', s_title = ReplyTitle,
          s_type = KReply, s_color = ''#3b82f6''\<rparr>,
        \<lparr>s_start = ''10:15'', s_end = ''10:45'', s_title = TaskSlotTitle ''B'' 30,
          s_type = KCategory Chore, s_color = ''#9ca3af''\<rparr>,
        \<lparr>s_start = ''12:15'', s_end = ''12:30'', s_title = ReplyTitle,
          s_type = KReply, s_color = ''#3b82f6''\<rparr>,
        \<lparr>s_start = ''15:15'', s_end = ''15:30'', s_title = ReplyTitle,
          s_type = KReply, s_color = ''#3b82f6''\<rparr>,
        \<lparr>s_start = ''15:30'', s_end = ''16:30'', s_title = LunchSlotTitle,
          s_type = KLunch, s_color = ''#10b981''\<rparr>,
        \<lparr>s_start = ''18:15'', s_end = ''18:30'', s_title = ReplyTitle,
          s_type = KReply, s_color = ''#3b82f6''\<rparr>,
        \<lparr>s_start = ''20:00'', s_end = ''00:00'', s_title = FamilyTitle,
          s_type = KFamily, s_color = ''#8b5cf6''\<rparr>,
        \<lparr>s_start = ''21:00'', s_end = ''22:00'', s_title = DinnerSlotTitle,
          s_type = KDinner, s_color = ''#f59e0b''\<rparr>]
   \<and> r_warnings (generate 32400000 []
      [\<lparr>t_title = ''A'', t_category = Future, t_minutes = 600, t_priority = Some High\<rparr>,
       \<lparr>t_title = ''B'', t_category = Chore, t_minutes = 30, t_priority = Some High\<rparr>])
     = [TaskWarning ''A'' 600]
   \<and> length (filter is_task_slot (schedule (generate 32400000 []
      [\<lparr>t_title = ''A'', t_category = Future, t_minutes = 600, t_priority = Some High\<rparr>,
       \<lparr>t_title = ''B'', t_category = Chore, t_minutes = 30, t_priority = Some High\<rparr>])))
     + length (filter is_task_warning (r_warnings (generate 32400000 []
      [\<lparr>t_title = ''A'', t_category = Future, t_minutes = 600, t_priority = Some High\<rparr>,
       \<lparr>t_title = ''B'', t_category = Chore, t_minutes = 30, t_priority = Some High\<rparr>])))
     = length
      [\<lparr>t_title = ''A'', t_category = Future, t_minutes = 600, t_priority = Some High\<rparr>,
       \<lparr>t_title = ''B'', t_category = Chore, t_minutes = 30, t_priority = Some High\<rparr>]
   \<and> sorted (map s_start (schedule (generate 32400000 []
      [\<lparr>t_title = ''A'', t_category = Future, t_minutes = 600, t_priority = Some High\<rparr>,
       \<lparr>t_title = ''B'', t_category = Chore, t_minutes = 30, t_priority = Some High\<rparr>])))"
proof -
  have s: "schedule (generate 32400000 []
      [\<lparr>t_title = ''A'', t_category = Future, t_minutes = 600, t_priority = Some High\<rparr>,
       \<lparr>t_title = ''B'', t_category = Chore, t_minutes = 30, t_priority = Some High\<rparr>])
     = [\<lparr>s_start = ''09:15'', s_end = ''09:30'', s_title = ReplyTitle,
          s_type = KReply, s_color = ''#3b82f6''\<rparr>,
        \<lparr>s_start = ''10:15'', s_end = ''10:45'', s_title = TaskSlotTitle ''B'' 30,
          s_type = KCategory Chore, s_color = ''#9ca3af''\<rparr>,
        \<lparr>s_start = ''12:15'', s_end = ''12:30'', s_title = ReplyTitle,
          s_type = KReply, s_color = ''#3b82f6''\<rparr>,
        \<lparr>s_start = ''15:15'', s_end = ''15:30'', s_title = ReplyTitle,
          s_type = KReply, s_color = ''#3b82f6''\<rparr>,
        \<lparr>s_start = ''15:30'', s_end = ''16:30'', s_title = LunchSlotTitle,
          s_type = KLunch, s_color = ''#10b981''\<rparr>,
        \<lparr>s_start = ''18:15'', s_end = ''18:30'', s_title = ReplyTitle,
          s_type = KReply, s_color = ''#3b82f6''\<rparr>,
        \<lparr>s_start = ''20:00'', s_end = ''00:00'', s_title = FamilyTitle,
          s_type = KFamily, s_color = ''#8b5cf6''\<rparr>,
        \<lparr>s_start = ''21:00'', s_end = ''22:00'', s_title = DinnerSlotTitle,
          s_type = KDinner, s_color = ''#f59e0b''\<rparr>]"
    by code_simp
  have w: "r_warnings (generate 32400000 []
      [\<lparr>t_title = ''A'', t_category = Future, t_minutes = 600, t_priority = Some High\<rparr>,
       \<lparr>t_title = ''B'', t_category = Chore, t_minutes = 30, t_priority = Some High\<rparr>])
     = [TaskWarning ''A'' 600]"
    by code_simp
  show ?thesis
    using generate_complete_result [of 32400000 "[]"
      "[\<lparr>t_title = ''A'', t_category = Future, t_minutes = 600, t_priority = Some High\<rparr>,
        \<lparr>t_title = ''B'', t_category = Chore, t_minutes = 30, t_priority = Some High\<rparr>]"] s w
    by (intro conjI) blast+
qed

subsection \<open>The cursor\<close>

lemma candidate_Some: "candidate (Some c) n = Some (c + int n * 900000)"
  by (simp add: candidate_def addMs_def)

lemma in_day_Some:
  "in_day (Some E) task (Some s) = (s < E \<and> s + t_minutes task * 60000 \<le> E)"
  by (auto simp: in_day_def date_lt_def date_gt_def addMs_def)

lemma place_task_step:
  "(fst (scan_loop e task c st) \<and>
      (\<exists>n. rejected e task c st n \<and> in_day e task (candidate c n)
          \<and> \<not> checkConflict (task_block task (candidate c n)) (blocks st)
          \<and> last (blocks (snd (snd (scan_loop e task c st)))) = task_block task (candidate c n)
          \<and> fst (place_task e (c, st) task) = addMs (candidate c n) (t_minutes task * 60000)))
   \<or> (\<not> fst (scan_loop e task c st) \<and>
      (\<exists>n. rejected e task c st n \<and> \<not> in_day e task (candidate c n)
          \<and> place_task e (c, st) task =
              (candidate c n,
               st\<lparr>warnings := warnings st @ [TaskWarning (t_title task) (t_minutes task)]\<rparr>)))"
proof -
  obtain placed c' st' where r: "scan_loop e task c st = (placed, c', st')"
    by (metis prod_cases3)
  show ?thesis
  proof (cases placed)
    case True
    obtain n where n: "rejected e task c st n" "in_day e task (candidate c n)"
      "\<not> checkConflict (task_block task (candidate c n)) (blocks st)"
      "c' = addMs (candidate c n) (t_minutes task * 60000)"
      "st' = st\<lparr>blocks := blocks st @ [task_block task (candidate c n)],
                 result := result st @ [task_slot task (task_block task (candidate c n))]\<rparr>"
    proof -
      have "scan_loop e task c st = (True, c', st')" using r True by simp
      from scan_loop_placed[OF this] show ?thesis using that by blast
    qed
    have "last (blocks (snd (snd (scan_loop e task c st)))) = task_block task (candidate c n)"
      unfolding r n(5) by simp
    moreover have "fst (place_task e (c, st) task) = addMs (candidate c n) (t_minutes task * 60000)"
      unfolding place_task_def using r True n(4) by simp
    moreover have "fst (scan_loop e task c st)" using r True by simp
    ultimately show ?thesis using n(1,2,3) by blast
  next
    case False
    obtain n where n: "st' = st" "c' = candidate c n" "rejected e task c st n"
      "\<not> in_day e task (candidate c n)"
    proof -
      have "scan_loop e task c st = (False, c', st')" using r False by simp
      from scan_loop_failed[OF this] show ?thesis using that by blast
    qed
    have "place_task e (c, st) task =
              (candidate c n,
               st\<lparr>warnings := warnings st @ [TaskWarning (t_title task) (t_minutes task)]\<rparr>)"
      unfolding place_task_def using r False n(1,2) by simp
    moreover have "\<not> fst (scan_loop e task c st)" using r False by simp
    ultimately show ?thesis using n(3,4) by blast
  qed
qed

lemma place_task_cursor:
  assumes "0 \<le> t_minutes task"
  shows "\<exists>c2. fst (place_task (Some E) (Some c, st) task) = Some c2 \<and> c \<le> c2
     \<and> (fst (scan_loop (Some E) task (Some c) st) \<longrightarrow>
          (\<exists>s. b_start (last (blocks (snd (snd (scan_loop (Some E) task (Some c) st))))) = Some s
              \<and> b_end (last (blocks (snd (snd (scan_loop (Some E) task (Some c) st))))) = Some c2
              \<and> c \<le> s \<and> c2 = s + t_minutes task * 60000 \<and> c2 \<le> E))"
proof -
  from place_task_step[of "Some E" task "Some c" st] show ?thesis
  proof (elim disjE conjE exE)
    fix n
    assume a: "fst (scan_loop (Some E) task (Some c) st)"
      "in_day (Some E) task (candidate (Some c) n)"
      "last (blocks (snd (snd (scan_loop (Some E) task (Some c) st))))
         = task_block task (candidate (Some c) n)"
      "fst (place_task (Some E) (Some c, st) task)
         = addMs (candidate (Some c) n) (t_minutes task * 60000)"
    have "c + int n * 900000 + t_minutes task * 60000 \<le> E"
      using a(2) by (simp add: candidate_Some in_day_Some)
    then show ?thesis
      using a(1,3,4) assms
      by (intro exI[of _ "c + int n * 900000 + t_minutes task * 60000"])
         (simp add: candidate_Some task_block_def addMs_def)
  next
    fix n
    assume a: "\<not> fst (scan_loop (Some E) task (Some c) st)"
      "place_task (Some E) (Some c, st) task =
              (candidate (Some c) n,
               st\<lparr>warnings := warnings st @ [TaskWarning (t_title task) (t_minutes task)]\<rparr>)"
    then show ?thesis
      by (intro exI[of _ "c + int n * 900000"]) (simp add: candidate_Some)
  qed
qed

lemma sweep_before_0: "sweep_before t0 fe tasks 0 = (planStart t0, before_backlog t0 fe)"
  by (simp add: sweep_before_def place_tasks_Nil)

lemma sweep_before_Suc:
  assumes "k < length tasks"
  shows "sweep_before t0 fe tasks (Suc k) =
     place_task (parseTime ''20:00'' (baseDate t0)) (sweep_before t0 fe tasks k)
       (tasksToPlace tasks ! k)"
proof -
  have "k < length (tasksToPlace tasks)" using assms by (simp add: length_tasksToPlace)
  then have "take (Suc k) (tasksToPlace tasks) = take k (tasksToPlace tasks) @ [tasksToPlace tasks ! k]"
    by (rule take_Suc_conv_app_nth)
  then show ?thesis by (simp add: sweep_before_def place_tasks_snoc)
qed

lemma planStart_valid: "\<exists>p. planStart t0 = Some p \<and> t0 + 900000 \<le> p"
  using ceil15_bounds[of "t0 + 900000"] by (auto simp: planStart_def addMs_def)

lemma set_tasksToPlace: "set (tasksToPlace tasks) = set tasks"
  unfolding tasksToPlace_def by auto

lemma tasksToPlace_nonneg:
  assumes "\<forall>t \<in> set tasks. 0 \<le> t_minutes t" "k < length tasks"
  shows "0 \<le> t_minutes (tasksToPlace tasks ! k)"
proof -
  have "tasksToPlace tasks ! k \<in> set (tasksToPlace tasks)"
    using assms(2) by (simp add: length_tasksToPlace)
  then show ?thesis using assms(1) by (simp add: set_tasksToPlace)
qed

lemma sweep_step:
  assumes pos: "\<forall>t \<in> set tasks. 0 \<le> t_minutes t" and k: "k < length tasks"
    and c: "fst (sweep_before t0 fe tasks k) = Some c"
  shows "\<exists>c2. fst (sweep_before t0 fe tasks (Suc k)) = Some c2 \<and> c \<le> c2
     \<and> (task_placed t0 fe tasks k \<longrightarrow>
          (\<exists>s. b_start (placed_block t0 fe tasks k) = Some s
              \<and> b_end (placed_block t0 fe tasks k) = Some c2
              \<and> c \<le> s \<and> c2 = s + t_minutes (tasksToPlace tasks ! k) * 60000
              \<and> c2 \<le> t0 - t0 mod 86400000 + 72000000))"
proof -
  define task where "task = tasksToPlace tasks ! k"
  define st where "st = snd (sweep_before t0 fe tasks k)"
  have cs: "sweep_before t0 fe tasks k = (Some c, st)"
    using c by (simp add: st_def prod_eq_iff)
  have m0: "0 \<le> t_minutes task" unfolding task_def by (rule tasksToPlace_nonneg[OF pos k])
  have so: "scan_of t0 fe tasks k
      = scan_loop (Some (t0 - t0 mod 86400000 + 72000000)) task (Some c) st"
    by (simp add: scan_of_def cs dayEnd_eq task_def)
  have nx: "sweep_before t0 fe tasks (Suc k)
      = place_task (Some (t0 - t0 mod 86400000 + 72000000)) (Some c, st) task"
    by (simp add: sweep_before_Suc[OF k] cs dayEnd_eq task_def)
  obtain c2 where c2: "fst (place_task (Some (t0 - t0 mod 86400000 + 72000000)) (Some c, st) task)
        = Some c2" "c \<le> c2"
     "fst (scan_loop (Some (t0 - t0 mod 86400000 + 72000000)) task (Some c) st) \<longrightarrow>
        (\<exists>s. b_start (last (blocks (snd (snd
                 (scan_loop (Some (t0 - t0 mod 86400000 + 72000000)) task (Some c) st))))) = Some s
            \<and> b_end (last (blocks (snd (snd
                 (scan_loop (Some (t0 - t0 mod 86400000 + 72000000)) task (Some c) st))))) = Some c2
            \<and> c \<le> s \<and> c2 = s + t_minutes task * 60000
            \<and> c2 \<le> t0 - t0 mod 86400000 + 72000000)"
    using place_task_cursor[OF m0, of "t0 - t0 mod 86400000 + 72000000" c st] by blast
  have "task_placed t0 fe tasks k \<longrightarrow>
          (\<exists>s. b_start (placed_block t0 fe tasks k) = Some s
              \<and> b_end (placed_block t0 fe tasks k) = Some c2
              \<and> c \<le> s \<and> c2 = s + t_minutes task * 60000
              \<and> c2 \<le> t0 - t0 mod 86400000 + 72000000)"
    unfolding task_placed_def placed_block_def so using c2(3) by auto
  then show ?thesis using c2(1,2) unfolding nx task_def by blast
qed

lemma cursor_valid:
  assumes pos: "\<forall>t \<in> set tasks. 0 \<le> t_minutes t"
  shows "k \<le> length tasks \<Longrightarrow> \<exists>c. fst (sweep_before t0 fe tasks k) = Some c"
proof (induction k)
  case 0
  then show ?case using planStart_valid[of t0] by (auto simp: sweep_before_0)
next
  case (Suc k)
  then obtain c where c: "fst (sweep_before t0 fe tasks k) = Some c" by auto
  have "k < length tasks" using Suc.prems by simp
  from sweep_step[OF pos this c] show ?case by blast
qed

lemma cursor_mono:
  assumes pos: "\<forall>t \<in> set tasks. 0 \<le> t_minutes t"
  shows "i \<le> j \<Longrightarrow> j \<le> length tasks \<Longrightarrow>
     date_le (fst (sweep_before t0 fe tasks i)) (fst (sweep_before t0 fe tasks j))"
proof (induction j)
  case 0
  then show ?case using cursor_valid[OF pos, of 0 t0 fe] by (auto simp: date_le_def)
next
  case (Suc j)
  obtain c where c: "fst (sweep_before t0 fe tasks j) = Some c"
    using cursor_valid[OF pos, of j t0 fe] Suc.prems by auto
  obtain c2 where c2: "fst (sweep_before t0 fe tasks (Suc j)) = Some c2" "c \<le> c2"
    using sweep_step[OF pos _ c] Suc.prems by auto
  show ?case
  proof (cases "i = Suc j")
    case True
    then show ?thesis using c2 by (simp add: date_le_def)
  next
    case False
    then have "date_le (fst (sweep_before t0 fe tasks i)) (fst (sweep_before t0 fe tasks j))"
      using Suc by simp
    then show ?thesis using c c2 by (auto simp: date_le_def split: option.splits)
  qed
qed

lemma placed_between:
  assumes pos: "\<forall>t \<in> set tasks. 0 \<le> t_minutes t" and k: "k < length tasks"
    and p: "task_placed t0 fe tasks k"
  shows "\<exists>c s c2. fst (sweep_before t0 fe tasks k) = Some c
      \<and> b_start (placed_block t0 fe tasks k) = Some s
      \<and> b_end (placed_block t0 fe tasks k) = Some c2
      \<and> fst (sweep_before t0 fe tasks (Suc k)) = Some c2
      \<and> c \<le> s \<and> c2 = s + t_minutes (tasksToPlace tasks ! k) * 60000
      \<and> c2 \<le> t0 - t0 mod 86400000 + 72000000"
proof -
  obtain c where c: "fst (sweep_before t0 fe tasks k) = Some c"
    using cursor_valid[OF pos, of k t0 fe] k by auto
  show ?thesis using sweep_step[OF pos k c] p c by blast
qed

lemma placed_order:
  assumes pos: "\<forall>t \<in> set tasks. 0 \<le> t_minutes t"
    and ij: "i < j" "j < length tasks"
    and p: "task_placed t0 fe tasks i" "task_placed t0 fe tasks j"
  shows "\<exists>a b. b_start (placed_block t0 fe tasks i) = Some a
      \<and> b_start (placed_block t0 fe tasks j) = Some b
      \<and> a + t_minutes (tasksToPlace tasks ! i) * 60000 \<le> b"
proof -
  have il: "i < length tasks" using ij by simp
  obtain ci si ei where i: "fst (sweep_before t0 fe tasks i) = Some ci"
      "b_start (placed_block t0 fe tasks i) = Some si"
      "fst (sweep_before t0 fe tasks (Suc i)) = Some ei"
      "ei = si + t_minutes (tasksToPlace tasks ! i) * 60000"
    using placed_between[OF pos il p(1)] by force
  obtain cj sj where j: "fst (sweep_before t0 fe tasks j) = Some cj"
      "b_start (placed_block t0 fe tasks j) = Some sj" "cj \<le> sj"
    using placed_between[OF pos ij(2) p(2)] by force
  have "date_le (fst (sweep_before t0 fe tasks (Suc i))) (fst (sweep_before t0 fe tasks j))"
    using cursor_mono[OF pos, of "Suc i" j t0 fe] ij by simp
  then have "ei \<le> cj" using i(3) j(1) by (simp add: date_le_def)
  then show ?thesis using i(2,4) j(2,3) by simp
qed

lemma sweep_moves:
  assumes "k < length tasks"
  shows "(task_placed t0 fe tasks k
          \<and> (\<exists>n. b_start (placed_block t0 fe tasks k)
                    = candidate (fst (sweep_before t0 fe tasks k)) n)
          \<and> fst (sweep_before t0 fe tasks (Suc k)) = b_end (placed_block t0 fe tasks k))
       \<or> (\<not> task_placed t0 fe tasks k
          \<and> (\<exists>n. fst (sweep_before t0 fe tasks (Suc k))
                    = candidate (fst (sweep_before t0 fe tasks k)) n))"
proof -
  define e where "e = parseTime ''20:00'' (baseDate t0)"
  define task where "task = tasksToPlace tasks ! k"
  define c where "c = fst (sweep_before t0 fe tasks k)"
  define st where "st = snd (sweep_before t0 fe tasks k)"
  have cs: "sweep_before t0 fe tasks k = (c, st)" by (simp add: c_def st_def)
  have so: "scan_of t0 fe tasks k = scan_loop e task c st"
    by (simp add: scan_of_def e_def task_def c_def st_def)
  have nx: "sweep_before t0 fe tasks (Suc k) = place_task e (c, st) task"
    by (simp add: sweep_before_Suc[OF assms] cs e_def task_def)
  from place_task_step[of e task c st] show ?thesis
  proof (elim disjE conjE exE)
    fix n
    assume a: "fst (scan_loop e task c st)"
      "last (blocks (snd (snd (scan_loop e task c st)))) = task_block task (candidate c n)"
      "fst (place_task e (c, st) task) = addMs (candidate c n) (t_minutes task * 60000)"
    have "task_placed t0 fe tasks k" using a(1) by (simp add: task_placed_def so)
    moreover have "b_start (placed_block t0 fe tasks k) = candidate c n"
      "b_end (placed_block t0 fe tasks k) = addMs (candidate c n) (t_minutes task * 60000)"
      using a(2) by (simp_all add: placed_block_def so task_block_def)
    ultimately show ?thesis
      unfolding nx a(3) c_def[symmetric] by (intro disjI1) auto
  next
    fix n
    assume a: "\<not> fst (scan_loop e task c st)"
      "place_task e (c, st) task =
              (candidate c n,
               st\<lparr>warnings := warnings st @ [TaskWarning (t_title task) (t_minutes task)]\<rparr>)"
    have "\<not> task_placed t0 fe tasks k" using a(1) by (simp add: task_placed_def so)
    then show ?thesis
      unfolding nx a(2) c_def[symmetric] by auto
  qed
qed

text \<open>
  C10. When every task has a positive duration: the cursor starts at \<open>planStart\<close>; for
  each task it first moves by a number of 15-minute steps and then, if the task is
  placed, is set to the end of its block; it never decreases. Every placed block starts
  at or after \<open>planStart\<close> and ends at or before 20:00, and of two placed tasks the one
  earlier in \<open>tasksToPlace\<close> (deep tasks first, then light tasks) starts no later.
\<close>

theorem backlog_cursor_nondecreasing:
  assumes "\<forall>t \<in> set tasks. 0 < t_minutes t"
  shows "fst (sweep_before t0 fixedEvents tasks 0) = planStart t0
   \<and> sweep_before t0 fixedEvents tasks (length tasks) = generate_run t0 fixedEvents tasks
   \<and> (\<forall>k < length tasks.
        (task_placed t0 fixedEvents tasks k
          \<and> (\<exists>n. b_start (placed_block t0 fixedEvents tasks k)
                    = candidate (fst (sweep_before t0 fixedEvents tasks k)) n)
          \<and> fst (sweep_before t0 fixedEvents tasks (Suc k))
               = b_end (placed_block t0 fixedEvents tasks k))
        \<or> (\<not> task_placed t0 fixedEvents tasks k
          \<and> (\<exists>n. fst (sweep_before t0 fixedEvents tasks (Suc k))
                    = candidate (fst (sweep_before t0 fixedEvents tasks k)) n)))
   \<and> (\<forall>i j. i \<le> j \<and> j \<le> length tasks \<longrightarrow>
          date_le (fst (sweep_before t0 fixedEvents tasks i))
                  (fst (sweep_before t0 fixedEvents tasks j)))
   \<and> (\<forall>k < length tasks. task_placed t0 fixedEvents tasks k \<longrightarrow>
          date_le (planStart t0) (b_start (placed_block t0 fixedEvents tasks k))
          \<and> date_le (b_end (placed_block t0 fixedEvents tasks k))
                     (parseTime ''20:00'' (baseDate t0)))
   \<and> (\<forall>i j. i < j \<and> j < length tasks
            \<and> task_placed t0 fixedEvents tasks i \<and> task_placed t0 fixedEvents tasks j \<longrightarrow>
          date_le (b_start (placed_block t0 fixedEvents tasks i))
                  (b_start (placed_block t0 fixedEvents tasks j)))"
proof -
  have nn: "\<forall>t \<in> set tasks. 0 \<le> t_minutes t"
    using assms by (simp add: less_imp_le)
  have a: "fst (sweep_before t0 fixedEvents tasks 0) = planStart t0"
    by (simp add: sweep_before_0)
  have b: "sweep_before t0 fixedEvents tasks (length tasks) = generate_run t0 fixedEvents tasks"
    by (simp add: sweep_before_def generate_run_def length_tasksToPlace)
  have c: "\<forall>k < length tasks.
        (task_placed t0 fixedEvents tasks k
          \<and> (\<exists>n. b_start (placed_block t0 fixedEvents tasks k)
                    = candidate (fst (sweep_before t0 fixedEvents tasks k)) n)
          \<and> fst (sweep_before t0 fixedEvents tasks (Suc k))
               = b_end (placed_block t0 fixedEvents tasks k))
        \<or> (\<not> task_placed t0 fixedEvents tasks k
          \<and> (\<exists>n. fst (sweep_before t0 fixedEvents tasks (Suc k))
                    = candidate (fst (sweep_before t0 fixedEvents tasks k)) n))"
    using sweep_moves by blast
  have d: "\<forall>i j. i \<le> j \<and> j \<le> length tasks \<longrightarrow>
          date_le (fst (sweep_before t0 fixedEvents tasks i))
                  (fst (sweep_before t0 fixedEvents tasks j))"
    using cursor_mono[OF nn] by blast
  have e: "\<forall>k < length tasks. task_placed t0 fixedEvents tasks k \<longrightarrow>
          date_le (planStart t0) (b_start (placed_block t0 fixedEvents tasks k))
          \<and> date_le (b_end (placed_block t0 fixedEvents tasks k))
                     (parseTime ''20:00'' (baseDate t0))"
  proof (intro allI impI)
    fix k assume k: "k < length tasks" and p: "task_placed t0 fixedEvents tasks k"
    obtain c s c2 where f: "fst (sweep_before t0 fixedEvents tasks k) = Some c"
      "b_start (placed_block t0 fixedEvents tasks k) = Some s"
      "b_end (placed_block t0 fixedEvents tasks k) = Some c2"
      "c \<le> s" "c2 \<le> t0 - t0 mod 86400000 + 72000000"
      using placed_between[OF nn k p] by blast
    have "date_le (fst (sweep_before t0 fixedEvents tasks 0))
                  (fst (sweep_before t0 fixedEvents tasks k))"
      using cursor_mono[OF nn, of 0 k] k by simp
    then have "date_le (planStart t0) (Some s)"
      using f(1,4) unfolding a by (auto simp: date_le_def split: option.splits)
    moreover have "date_le (Some c2) (parseTime ''20:00'' (baseDate t0))"
      using f(5) by (simp add: dayEnd_eq date_le_def)
    ultimately show "date_le (planStart t0) (b_start (placed_block t0 fixedEvents tasks k))
          \<and> date_le (b_end (placed_block t0 fixedEvents tasks k))
                     (parseTime ''20:00'' (baseDate t0))"
      using f(2,3) by simp
  qed
  have f: "\<forall>i j. i < j \<and> j < length tasks
            \<and> task_placed t0 fixedEvents tasks i \<and> task_placed t0 fixedEvents tasks j \<longrightarrow>
          date_le (b_start (placed_block t0 fixedEvents tasks i))
                  (b_start (placed_block t0 fixedEvents tasks j))"
  proof (intro allI impI)
    fix i j
    assume h: "i < j \<and> j < length tasks
            \<and> task_placed t0 fixedEvents tasks i \<and> task_placed t0 fixedEvents tasks j"
    then have il: "i < length tasks" by simp
    have "0 \<le> t_minutes (tasksToPlace tasks ! i)"
      by (rule tasksToPlace_nonneg[OF nn il])
    moreover obtain x y where "b_start (placed_block t0 fixedEvents tasks i) = Some x"
      "b_start (placed_block t0 fixedEvents tasks j) = Some y"
      "x + t_minutes (tasksToPlace tasks ! i) * 60000 \<le> y"
      using placed_order[OF nn, of i j t0 fixedEvents] h by blast
    ultimately show "date_le (b_start (placed_block t0 fixedEvents tasks i))
                  (b_start (placed_block t0 fixedEvents tasks j))"
      by (simp add: date_le_def)
  qed
  show ?thesis using a b c d e f by (intro conjI)
qed

theorem backlog_cursor_nondecreasing_witness:
  "0 < t_minutes \<lparr>t_title = ''B'', t_category = Chore, t_minutes = 30, t_priority = Some Medium\<rparr>
   \<and> 0 < t_minutes \<lparr>t_title = ''C'', t_category = Now, t_minutes = 60, t_priority = Some Medium\<rparr>
   \<and> task_placed 32400000 []
        [\<lparr>t_title = ''B'', t_category = Chore, t_minutes = 30, t_priority = Some Medium\<rparr>,
         \<lparr>t_title = ''C'', t_category = Now, t_minutes = 60, t_priority = Some Medium\<rparr>] 0
   \<and> task_placed 32400000 []
        [\<lparr>t_title = ''B'', t_category = Chore, t_minutes = 30, t_priority = Some Medium\<rparr>,
         \<lparr>t_title = ''C'', t_category = Now, t_minutes = 60, t_priority = Some Medium\<rparr>] 1
   \<and> date_le
        (b_start (placed_block 32400000 []
        [\<lparr>t_title = ''B'', t_category = Chore, t_minutes = 30, t_priority = Some Medium\<rparr>,
         \<lparr>t_title = ''C'', t_category = Now, t_minutes = 60, t_priority = Some Medium\<rparr>] 0))
        (b_start (placed_block 32400000 []
        [\<lparr>t_title = ''B'', t_category = Chore, t_minutes = 30, t_priority = Some Medium\<rparr>,
         \<lparr>t_title = ''C'', t_category = Now, t_minutes = 60, t_priority = Some Medium\<rparr>] 1))
   \<and> date_le
        (fst (sweep_before 32400000 []
        [\<lparr>t_title = ''B'', t_category = Chore, t_minutes = 30, t_priority = Some Medium\<rparr>,
         \<lparr>t_title = ''C'', t_category = Now, t_minutes = 60, t_priority = Some Medium\<rparr>] 0))
        (fst (sweep_before 32400000 []
        [\<lparr>t_title = ''B'', t_category = Chore, t_minutes = 30, t_priority = Some Medium\<rparr>,
         \<lparr>t_title = ''C'', t_category = Now, t_minutes = 60, t_priority = Some Medium\<rparr>] 2))"
proof -
  have h: "\<forall>t \<in> set [\<lparr>t_title = ''B'', t_category = Chore, t_minutes = 30, t_priority = Some Medium\<rparr>,
               \<lparr>t_title = ''C'', t_category = Now, t_minutes = 60, t_priority = Some Medium\<rparr>].
       0 < t_minutes t"
    by simp
  have p0: "task_placed 32400000 []
        [\<lparr>t_title = ''B'', t_category = Chore, t_minutes = 30, t_priority = Some Medium\<rparr>,
         \<lparr>t_title = ''C'', t_category = Now, t_minutes = 60, t_priority = Some Medium\<rparr>] 0"
    by code_simp
  have p1: "task_placed 32400000 []
        [\<lparr>t_title = ''B'', t_category = Chore, t_minutes = 30, t_priority = Some Medium\<rparr>,
         \<lparr>t_title = ''C'', t_category = Now, t_minutes = 60, t_priority = Some Medium\<rparr>] 1"
    by code_simp
  have l: "(0 :: nat) < 1 \<and> 1 < length
        [\<lparr>t_title = ''B'', t_category = Chore, t_minutes = 30, t_priority = Some Medium\<rparr>,
         \<lparr>t_title = ''C'', t_category = Now, t_minutes = 60, t_priority = Some Medium\<rparr>]
       \<and> (0 :: nat) \<le> 2 \<and> 2 \<le> length
        [\<lparr>t_title = ''B'', t_category = Chore, t_minutes = 30, t_priority = Some Medium\<rparr>,
         \<lparr>t_title = ''C'', t_category = Now, t_minutes = 60, t_priority = Some Medium\<rparr>]"
    by simp
  show ?thesis
    using backlog_cursor_nondecreasing [OF h, of 32400000 "[]"] h p0 p1 l
    by (intro conjI) (simp, simp, blast+)
qed

text \<open>
  C3. As stated the claim fails on the cursor: the scan moves the shared cursor by 15
  minutes at every conflicting candidate, and a failed task leaves it where the scan
  stopped. At 09:00 with no fixed events, a task of 600 minutes fails after four
  conflicting candidates and leaves the cursor at 10:15 instead of 09:15; the next task,
  of 30 minutes, is then placed at 10:15 although 09:30 is free.
\<close>

theorem failed_task_moves_cursor_counterexample:
  "\<not> task_placed 32400000 []
        [\<lparr>t_title = ''A'', t_category = Future, t_minutes = 600, t_priority = Some High\<rparr>,
         \<lparr>t_title = ''B'', t_category = Chore, t_minutes = 30, t_priority = Some High\<rparr>] 0
   \<and> fst (sweep_before 32400000 []
        [\<lparr>t_title = ''A'', t_category = Future, t_minutes = 600, t_priority = Some High\<rparr>,
         \<lparr>t_title = ''B'', t_category = Chore, t_minutes = 30, t_priority = Some High\<rparr>] 0)
       = Some 33300000
   \<and> fst (sweep_before 32400000 []
        [\<lparr>t_title = ''A'', t_category = Future, t_minutes = 600, t_priority = Some High\<rparr>,
         \<lparr>t_title = ''B'', t_category = Chore, t_minutes = 30, t_priority = Some High\<rparr>] 1)
       = Some 36900000
   \<and> task_placed 32400000 []
        [\<lparr>t_title = ''A'', t_category = Future, t_minutes = 600, t_priority = Some High\<rparr>,
         \<lparr>t_title = ''B'', t_category = Chore, t_minutes = 30, t_priority = Some High\<rparr>] 1
   \<and> b_start (placed_block 32400000 []
        [\<lparr>t_title = ''A'', t_category = Future, t_minutes = 600, t_priority = Some High\<rparr>,
         \<lparr>t_title = ''B'', t_category = Chore, t_minutes = 30, t_priority = Some High\<rparr>] 1)
       = Some 36900000
   \<and> \<not> checkConflict
        (task_block \<lparr>t_title = ''B'', t_category = Chore, t_minutes = 30, t_priority = Some High\<rparr>
           (Some 34200000))
        (blocks (snd (sweep_before 32400000 []
        [\<lparr>t_title = ''A'', t_category = Future, t_minutes = 600, t_priority = Some High\<rparr>,
         \<lparr>t_title = ''B'', t_category = Chore, t_minutes = 30, t_priority = Some High\<rparr>] 1)))"
  by code_simp

lemma candidate_eq_iff: "candidate (Some c) n = Some c \<longleftrightarrow> n = 0"
  by (simp add: candidate_Some)

text \<open>
  C3, amended. For a task that cannot be placed, the working set and the output are
  left as they are, one warning with the title and the minutes of the task is added,
  and the cursor is left where the scan stopped: it has moved by 15 minutes for every
  candidate that the scan rejected for a conflict. So a valid cursor has the same value
  as before exactly when the first candidate already fails the test against \<open>dayEnd\<close>.
\<close>

theorem failed_task_leaves_cursor_where_scan_stopped:
  assumes "\<not> fst (scan_loop dayEnd task currentTime st)"
  shows "blocks (snd (place_task dayEnd (currentTime, st) task)) = blocks st
   \<and> result (snd (place_task dayEnd (currentTime, st) task)) = result st
   \<and> warnings (snd (place_task dayEnd (currentTime, st) task))
       = warnings st @ [TaskWarning (t_title task) (t_minutes task)]
   \<and> (\<exists>n. fst (place_task dayEnd (currentTime, st) task) = candidate currentTime n
          \<and> rejected dayEnd task currentTime st n
          \<and> \<not> in_day dayEnd task (candidate currentTime n))
   \<and> (currentTime \<noteq> None \<longrightarrow>
        (fst (place_task dayEnd (currentTime, st) task) = currentTime)
          = (\<not> in_day dayEnd task currentTime))"
proof -
  obtain n where n: "rejected dayEnd task currentTime st n"
     "\<not> in_day dayEnd task (candidate currentTime n)"
     "place_task dayEnd (currentTime, st) task =
        (candidate currentTime n,
         st\<lparr>warnings := warnings st @ [TaskWarning (t_title task) (t_minutes task)]\<rparr>)"
    using place_task_step[of dayEnd task currentTime st] assms by blast
  have same: "(fst (place_task dayEnd (currentTime, st) task) = currentTime)
          = (\<not> in_day dayEnd task currentTime)" if v: "currentTime \<noteq> None"
  proof -
    obtain c where c: "currentTime = Some c" using v by auto
    show ?thesis
    proof (cases n)
      case 0
      then show ?thesis using n(2,3) by (simp add: candidate_0)
    next
      case (Suc m)
      have "in_day dayEnd task currentTime"
        using n(1) unfolding Suc rejected_Suc by simp
      moreover have "candidate currentTime n \<noteq> currentTime"
        unfolding c candidate_eq_iff using Suc by simp
      ultimately show ?thesis using n(3) by simp
    qed
  qed
  have "\<exists>n. fst (place_task dayEnd (currentTime, st) task) = candidate currentTime n
          \<and> rejected dayEnd task currentTime st n
          \<and> \<not> in_day dayEnd task (candidate currentTime n)"
    using n by (intro exI[of _ n]) simp
  then show ?thesis using same n(3) by simp
qed

theorem failed_task_leaves_cursor_where_scan_stopped_witness:
  "\<not> fst (scan_loop (Some 72000000)
        \<lparr>t_title = ''A'', t_category = Future, t_minutes = 600, t_priority = Some High\<rparr>
        (Some 33300000)
        \<lparr>blocks = [\<lparr>b_start = Some 33300000, b_end = Some 34200000, b_title = ReplyTitle,
                     b_type = KReply, b_minutes = Some 15\<rparr>,
                    \<lparr>b_start = Some 44100000, b_end = Some 45000000, b_title = ReplyTitle,
                     b_type = KReply, b_minutes = Some 15\<rparr>],
          result = [], warnings = []\<rparr>)
   \<and> Some 33300000 \<noteq> (None :: Date)
   \<and> in_day (Some 72000000)
        \<lparr>t_title = ''A'', t_category = Future, t_minutes = 600, t_priority = Some High\<rparr>
        (Some 33300000)
   \<and> fst (place_task (Some 72000000)
        (Some 33300000,
         \<lparr>blocks = [\<lparr>b_start = Some 33300000, b_end = Some 34200000, b_title = ReplyTitle,
                     b_type = KReply, b_minutes = Some 15\<rparr>,
                    \<lparr>b_start = Some 44100000, b_end = Some 45000000, b_title = ReplyTitle,
                     b_type = KReply, b_minutes = Some 15\<rparr>],
          result = [], warnings = []\<rparr>)
        \<lparr>t_title = ''A'', t_category = Future, t_minutes = 600, t_priority = Some High\<rparr>)
       \<noteq> Some 33300000
   \<and> warnings (snd (place_task (Some 72000000)
        (Some 33300000,
         \<lparr>blocks = [\<lparr>b_start = Some 33300000, b_end = Some 34200000, b_title = ReplyTitle,
                     b_type = KReply, b_minutes = Some 15\<rparr>,
                    \<lparr>b_start = Some 44100000, b_end = Some 45000000, b_title = ReplyTitle,
                     b_type = KReply, b_minutes = Some 15\<rparr>],
          result = [], warnings = []\<rparr>)
        \<lparr>t_title = ''A'', t_category = Future, t_minutes = 600, t_priority = Some High\<rparr>))
       = [TaskWarning ''A'' 600]"
proof -
  have f: "\<not> fst (scan_loop (Some 72000000)
        \<lparr>t_title = ''A'', t_category = Future, t_minutes = 600, t_priority = Some High\<rparr>
        (Some 33300000)
        \<lparr>blocks = [\<lparr>b_start = Some 33300000, b_end = Some 34200000, b_title = ReplyTitle,
                     b_type = KReply, b_minutes = Some 15\<rparr>,
                    \<lparr>b_start = Some 44100000, b_end = Some 45000000, b_title = ReplyTitle,
                     b_type = KReply, b_minutes = Some 15\<rparr>],
          result = [], warnings = []\<rparr>)"
    by code_simp
  have v: "Some 33300000 \<noteq> (None :: Date)" by simp
  have d: "in_day (Some 72000000)
        \<lparr>t_title = ''A'', t_category = Future, t_minutes = 600, t_priority = Some High\<rparr>
        (Some 33300000)"
    by (simp add: in_day_Some)
  note t = failed_task_leaves_cursor_where_scan_stopped [OF f]
  have w: "warnings (snd (place_task (Some 72000000)
        (Some 33300000,
         \<lparr>blocks = [\<lparr>b_start = Some 33300000, b_end = Some 34200000, b_title = ReplyTitle,
                     b_type = KReply, b_minutes = Some 15\<rparr>,
                    \<lparr>b_start = Some 44100000, b_end = Some 45000000, b_title = ReplyTitle,
                     b_type = KReply, b_minutes = Some 15\<rparr>],
          result = [], warnings = []\<rparr>)
        \<lparr>t_title = ''A'', t_category = Future, t_minutes = 600, t_priority = Some High\<rparr>))
       = [TaskWarning ''A'' 600]"
    using t by simp
  have c: "fst (place_task (Some 72000000)
        (Some 33300000,
         \<lparr>blocks = [\<lparr>b_start = Some 33300000, b_end = Some 34200000, b_title = ReplyTitle,
                     b_type = KReply, b_minutes = Some 15\<rparr>,
                    \<lparr>b_start = Some 44100000, b_end = Some 45000000, b_title = ReplyTitle,
                     b_type = KReply, b_minutes = Some 15\<rparr>],
          result = [], warnings = []\<rparr>)
        \<lparr>t_title = ''A'', t_category = Future, t_minutes = 600, t_priority = Some High\<rparr>)
       \<noteq> Some 33300000"
    using t d v by blast
  show ?thesis
    using f v d c w by (intro conjI)
qed

subsection \<open>The order of the input and the order of the sweep\<close>

lemma filter_split_at:
  assumes "i < length xs" "P (xs ! i)"
  shows "filter P xs = filter P (take i xs) @ xs ! i # filter P (drop (Suc i) xs)"
proof -
  have "xs = take i xs @ xs ! i # drop (Suc i) xs"
    using assms(1) by (rule id_take_nth_drop)
  then have "filter P xs = filter P (take i xs @ xs ! i # drop (Suc i) xs)" by simp
  then show ?thesis using assms(2) by simp
qed

lemma filter_take_less:
  assumes "i < length xs" "P (xs ! i)"
  shows "length (filter P (take i xs)) < length (filter P xs)"
  using filter_split_at[of i xs P] assms by simp

lemma filter_take_mono:
  assumes "i < j" "j \<le> length xs" "P (xs ! i)"
  shows "length (filter P (take i xs)) < length (filter P (take j xs))"
proof -
  have "i < length (take j xs)" "P (take j xs ! i)" "take i (take j xs) = take i xs"
    using assms by (simp_all add: min_def)
  then show ?thesis using filter_take_less[of i "take j xs" P] by simp
qed

lemma filter_nth_at:
  assumes "i < length xs" "P (xs ! i)"
  shows "filter P xs ! length (filter P (take i xs)) = xs ! i"
proof -
  have "filter P xs = filter P (take i xs) @ xs ! i # filter P (drop (Suc i) xs)"
    using filter_split_at[of i xs P] assms by simp
  then show ?thesis by (simp add: nth_append)
qed

lemma light_filter:
  "filter (\<lambda>t. t_minutes t < 45) xs = filter (\<lambda>t. \<not> 45 \<le> t_minutes t) xs"
  by (rule filter_cong) auto

lemma sweep_index_nth:
  assumes "i < length tasks"
  shows "tasksToPlace tasks ! sweep_index tasks i = tasks ! i
         \<and> sweep_index tasks i < length tasks"
proof (cases "45 \<le> t_minutes (tasks ! i)")
  case True
  have l: "length (filter (\<lambda>t. 45 \<le> t_minutes t) (take i tasks))
        < length (filter (\<lambda>t. 45 \<le> t_minutes t) tasks)"
    using filter_take_less[of i tasks "\<lambda>t. 45 \<le> t_minutes t"] assms True by simp
  have "tasksToPlace tasks ! sweep_index tasks i
      = filter (\<lambda>t. 45 \<le> t_minutes t) tasks
          ! length (filter (\<lambda>t. 45 \<le> t_minutes t) (take i tasks))"
    using True l by (simp add: sweep_index_def tasksToPlace_def nth_append)
  moreover have "sweep_index tasks i < length (tasksToPlace tasks)"
    using True l by (simp add: sweep_index_def tasksToPlace_def)
  ultimately show ?thesis
    using filter_nth_at[of i tasks "\<lambda>t. 45 \<le> t_minutes t"] assms True
    by (simp add: length_tasksToPlace)
next
  case False
  then have lt: "t_minutes (tasks ! i) < 45" by simp
  have l: "length (filter (\<lambda>t. t_minutes t < 45) (take i tasks))
        < length (filter (\<lambda>t. t_minutes t < 45) tasks)"
    using filter_take_less[of i tasks "\<lambda>t. t_minutes t < 45"] assms lt by simp
  have "tasksToPlace tasks ! sweep_index tasks i
      = filter (\<lambda>t. t_minutes t < 45) tasks
          ! length (filter (\<lambda>t. t_minutes t < 45) (take i tasks))"
    using False by (simp add: sweep_index_def tasksToPlace_def nth_append)
  moreover have "sweep_index tasks i < length (tasksToPlace tasks)"
    using False l by (simp add: sweep_index_def tasksToPlace_def)
  ultimately show ?thesis
    using filter_nth_at[of i tasks "\<lambda>t. t_minutes t < 45"] assms lt
    by (simp add: length_tasksToPlace)
qed

lemma sweep_index_order:
  assumes "i < j" "j < length tasks"
  shows "(45 \<le> t_minutes (tasks ! j) \<longrightarrow> 45 \<le> t_minutes (tasks ! i))
           \<longrightarrow> sweep_index tasks i < sweep_index tasks j"
    and "t_minutes (tasks ! i) < 45 \<and> 45 \<le> t_minutes (tasks ! j)
           \<longrightarrow> sweep_index tasks j < sweep_index tasks i"
proof -
  have i: "i < length tasks" using assms by simp
  have dd: "length (filter (\<lambda>t. 45 \<le> t_minutes t) (take i tasks))
          < length (filter (\<lambda>t. 45 \<le> t_minutes t) (take j tasks))"
    if "45 \<le> t_minutes (tasks ! i)"
    using filter_take_mono[of i j tasks "\<lambda>t. 45 \<le> t_minutes t"] assms that by simp
  have ll: "length (filter (\<lambda>t. t_minutes t < 45) (take i tasks))
          < length (filter (\<lambda>t. t_minutes t < 45) (take j tasks))"
    if "t_minutes (tasks ! i) < 45"
    using filter_take_mono[of i j tasks "\<lambda>t. t_minutes t < 45"] assms that by simp
  have di: "length (filter (\<lambda>t. 45 \<le> t_minutes t) (take i tasks))
          < length (filter (\<lambda>t. 45 \<le> t_minutes t) tasks)"
    if "45 \<le> t_minutes (tasks ! i)"
    using filter_take_less[of i tasks "\<lambda>t. 45 \<le> t_minutes t"] i that by simp
  have dj: "length (filter (\<lambda>t. 45 \<le> t_minutes t) (take j tasks))
          < length (filter (\<lambda>t. 45 \<le> t_minutes t) tasks)"
    if "45 \<le> t_minutes (tasks ! j)"
    using filter_take_less[of j tasks "\<lambda>t. 45 \<le> t_minutes t"] assms(2) that by simp
  show "(45 \<le> t_minutes (tasks ! j) \<longrightarrow> 45 \<le> t_minutes (tasks ! i))
           \<longrightarrow> sweep_index tasks i < sweep_index tasks j"
  proof
    assume h: "45 \<le> t_minutes (tasks ! j) \<longrightarrow> 45 \<le> t_minutes (tasks ! i)"
    show "sweep_index tasks i < sweep_index tasks j"
    proof (cases "45 \<le> t_minutes (tasks ! i)")
      case True
      show ?thesis
      proof (cases "45 \<le> t_minutes (tasks ! j)")
        case dj': True
        show ?thesis using dd[OF True] True dj' by (simp add: sweep_index_def)
      next
        case False
        show ?thesis using di[OF True] True False by (simp add: sweep_index_def)
      qed
    next
      case False
      then have lj: "\<not> 45 \<le> t_minutes (tasks ! j)" using h by blast
      have "t_minutes (tasks ! i) < 45" using False by simp
      from ll[OF this] show ?thesis using False lj by (simp add: sweep_index_def)
    qed
  qed
  show "t_minutes (tasks ! i) < 45 \<and> 45 \<le> t_minutes (tasks ! j)
           \<longrightarrow> sweep_index tasks j < sweep_index tasks i"
  proof
    assume h: "t_minutes (tasks ! i) < 45 \<and> 45 \<le> t_minutes (tasks ! j)"
    then show "sweep_index tasks j < sweep_index tasks i"
      using dj by (simp add: sweep_index_def)
  qed
qed

text \<open>
  C7. As stated the claim fails: the deep tasks are swept before the light ones, so a
  light task that comes first in the input is placed after a deep task of the same
  priority that comes second. At 09:00 with no fixed events, the 30-minute task B comes
  first and the 60-minute task C second, both of medium priority; C is placed at 09:30
  and B at 10:30.
\<close>

theorem light_before_deep_counterexample:
  "t_priority \<lparr>t_title = ''B'', t_category = Chore, t_minutes = 30, t_priority = Some Medium\<rparr>
     = t_priority \<lparr>t_title = ''C'', t_category = Now, t_minutes = 60, t_priority = Some Medium\<rparr>
   \<and> tasksToPlace
        [\<lparr>t_title = ''B'', t_category = Chore, t_minutes = 30, t_priority = Some Medium\<rparr>,
         \<lparr>t_title = ''C'', t_category = Now, t_minutes = 60, t_priority = Some Medium\<rparr>]
       = [\<lparr>t_title = ''C'', t_category = Now, t_minutes = 60, t_priority = Some Medium\<rparr>,
          \<lparr>t_title = ''B'', t_category = Chore, t_minutes = 30, t_priority = Some Medium\<rparr>]
   \<and> task_placed 32400000 []
        [\<lparr>t_title = ''B'', t_category = Chore, t_minutes = 30, t_priority = Some Medium\<rparr>,
         \<lparr>t_title = ''C'', t_category = Now, t_minutes = 60, t_priority = Some Medium\<rparr>] 0
   \<and> task_placed 32400000 []
        [\<lparr>t_title = ''B'', t_category = Chore, t_minutes = 30, t_priority = Some Medium\<rparr>,
         \<lparr>t_title = ''C'', t_category = Now, t_minutes = 60, t_priority = Some Medium\<rparr>] 1
   \<and> placed_block 32400000 []
        [\<lparr>t_title = ''B'', t_category = Chore, t_minutes = 30, t_priority = Some Medium\<rparr>,
         \<lparr>t_title = ''C'', t_category = Now, t_minutes = 60, t_priority = Some Medium\<rparr>] 0
       = \<lparr>b_start = Some 34200000, b_end = Some 37800000, b_title = Text ''C'',
          b_type = KCategory Now, b_minutes = Some 60\<rparr>
   \<and> placed_block 32400000 []
        [\<lparr>t_title = ''B'', t_category = Chore, t_minutes = 30, t_priority = Some Medium\<rparr>,
         \<lparr>t_title = ''C'', t_category = Now, t_minutes = 60, t_priority = Some Medium\<rparr>] 1
       = \<lparr>b_start = Some 37800000, b_end = Some 39600000, b_title = Text ''B'',
          b_type = KCategory Chore, b_minutes = Some 30\<rparr>
   \<and> map s_start (filter is_task_slot (schedule (generate 32400000 []
        [\<lparr>t_title = ''B'', t_category = Chore, t_minutes = 30, t_priority = Some Medium\<rparr>,
         \<lparr>t_title = ''C'', t_category = Now, t_minutes = 60, t_priority = Some Medium\<rparr>])))
       = [''09:30'', ''10:30'']
   \<and> map s_title (filter is_task_slot (schedule (generate 32400000 []
        [\<lparr>t_title = ''B'', t_category = Chore, t_minutes = 30, t_priority = Some Medium\<rparr>,
         \<lparr>t_title = ''C'', t_category = Now, t_minutes = 60, t_priority = Some Medium\<rparr>])))
       = [TaskSlotTitle ''C'' 60, TaskSlotTitle ''B'' 30]"
  by code_simp

text \<open>
  C7, amended. When no task has a negative duration, take two tasks that are both
  placed, at positions \<open>i < j\<close> of the input; \<open>sweep_index\<close> gives their positions in
  the sweep. Unless the earlier one is light (under 45 minutes) and the later one deep,
  the earlier one starts no later than the later one. If the earlier one is light and
  the later one deep, the later one starts first. Priority plays no part in either
  case.
\<close>

theorem backlog_order_within_groups:
  assumes "\<forall>t \<in> set tasks. 0 \<le> t_minutes t"
    and "i < j" and "j < length tasks"
    and "task_placed t0 fixedEvents tasks (sweep_index tasks i)"
    and "task_placed t0 fixedEvents tasks (sweep_index tasks j)"
  shows "tasksToPlace tasks ! sweep_index tasks i = tasks ! i
   \<and> tasksToPlace tasks ! sweep_index tasks j = tasks ! j
   \<and> ((45 \<le> t_minutes (tasks ! j) \<longrightarrow> 45 \<le> t_minutes (tasks ! i)) \<longrightarrow>
        date_le (b_start (placed_block t0 fixedEvents tasks (sweep_index tasks i)))
                (b_start (placed_block t0 fixedEvents tasks (sweep_index tasks j))))
   \<and> (t_minutes (tasks ! i) < 45 \<and> 45 \<le> t_minutes (tasks ! j) \<longrightarrow>
        date_lt (b_start (placed_block t0 fixedEvents tasks (sweep_index tasks j)))
                (b_start (placed_block t0 fixedEvents tasks (sweep_index tasks i))))"
proof -
  have i: "i < length tasks" using assms(2,3) by simp
  have ni: "tasksToPlace tasks ! sweep_index tasks i = tasks ! i"
    and li: "sweep_index tasks i < length tasks"
    using sweep_index_nth[OF i] by simp_all
  have nj: "tasksToPlace tasks ! sweep_index tasks j = tasks ! j"
    and lj: "sweep_index tasks j < length tasks"
    using sweep_index_nth[OF assms(3)] by simp_all
  have a: "date_le (b_start (placed_block t0 fixedEvents tasks (sweep_index tasks i)))
                (b_start (placed_block t0 fixedEvents tasks (sweep_index tasks j)))"
    if h: "45 \<le> t_minutes (tasks ! j) \<longrightarrow> 45 \<le> t_minutes (tasks ! i)"
  proof -
    have "sweep_index tasks i < sweep_index tasks j"
      using sweep_index_order(1)[OF assms(2,3)] h by blast
    then obtain x y where
      "b_start (placed_block t0 fixedEvents tasks (sweep_index tasks i)) = Some x"
      "b_start (placed_block t0 fixedEvents tasks (sweep_index tasks j)) = Some y"
      "x + t_minutes (tasksToPlace tasks ! sweep_index tasks i) * 60000 \<le> y"
      using placed_order[OF assms(1) _ lj assms(4,5)] by blast
    moreover have "0 \<le> t_minutes (tasksToPlace tasks ! sweep_index tasks i)"
      by (rule tasksToPlace_nonneg[OF assms(1) li])
    ultimately show ?thesis by (simp add: date_le_def)
  qed
  have b: "date_lt (b_start (placed_block t0 fixedEvents tasks (sweep_index tasks j)))
                (b_start (placed_block t0 fixedEvents tasks (sweep_index tasks i)))"
    if h: "t_minutes (tasks ! i) < 45 \<and> 45 \<le> t_minutes (tasks ! j)"
  proof -
    have "sweep_index tasks j < sweep_index tasks i"
      using sweep_index_order(2)[OF assms(2,3)] h by blast
    then obtain x y where
      "b_start (placed_block t0 fixedEvents tasks (sweep_index tasks j)) = Some x"
      "b_start (placed_block t0 fixedEvents tasks (sweep_index tasks i)) = Some y"
      "x + t_minutes (tasksToPlace tasks ! sweep_index tasks j) * 60000 \<le> y"
      using placed_order[OF assms(1) _ li assms(5,4)] by blast
    moreover have "0 < t_minutes (tasksToPlace tasks ! sweep_index tasks j)"
      unfolding nj using h by simp
    ultimately show ?thesis by (simp add: date_lt_def)
  qed
  show ?thesis using ni nj a b by (intro conjI impI)
qed

theorem backlog_order_within_groups_witness:
  "0 \<le> t_minutes \<lparr>t_title = ''C'', t_category = Now, t_minutes = 60, t_priority = Some Medium\<rparr>
   \<and> 0 \<le> t_minutes \<lparr>t_title = ''B'', t_category = Chore, t_minutes = 30, t_priority = Some Medium\<rparr>
   \<and> 0 \<le> t_minutes \<lparr>t_title = ''D'', t_category = Future, t_minutes = 45, t_priority = Some Low\<rparr>
   \<and> date_le
       (b_start (placed_block 32400000 []
          [\<lparr>t_title = ''C'', t_category = Now, t_minutes = 60, t_priority = Some Medium\<rparr>,
           \<lparr>t_title = ''B'', t_category = Chore, t_minutes = 30, t_priority = Some Medium\<rparr>,
           \<lparr>t_title = ''D'', t_category = Future, t_minutes = 45, t_priority = Some Low\<rparr>]
          (sweep_index
             [\<lparr>t_title = ''C'', t_category = Now, t_minutes = 60, t_priority = Some Medium\<rparr>,
              \<lparr>t_title = ''B'', t_category = Chore, t_minutes = 30, t_priority = Some Medium\<rparr>,
              \<lparr>t_title = ''D'', t_category = Future, t_minutes = 45, t_priority = Some Low\<rparr>]
             0)))
       (b_start (placed_block 32400000 []
          [\<lparr>t_title = ''C'', t_category = Now, t_minutes = 60, t_priority = Some Medium\<rparr>,
           \<lparr>t_title = ''B'', t_category = Chore, t_minutes = 30, t_priority = Some Medium\<rparr>,
           \<lparr>t_title = ''D'', t_category = Future, t_minutes = 45, t_priority = Some Low\<rparr>]
          (sweep_index
             [\<lparr>t_title = ''C'', t_category = Now, t_minutes = 60, t_priority = Some Medium\<rparr>,
              \<lparr>t_title = ''B'', t_category = Chore, t_minutes = 30, t_priority = Some Medium\<rparr>,
              \<lparr>t_title = ''D'', t_category = Future, t_minutes = 45, t_priority = Some Low\<rparr>]
             1)))
   \<and> date_lt
       (b_start (placed_block 32400000 []
          [\<lparr>t_title = ''C'', t_category = Now, t_minutes = 60, t_priority = Some Medium\<rparr>,
           \<lparr>t_title = ''B'', t_category = Chore, t_minutes = 30, t_priority = Some Medium\<rparr>,
           \<lparr>t_title = ''D'', t_category = Future, t_minutes = 45, t_priority = Some Low\<rparr>]
          (sweep_index
             [\<lparr>t_title = ''C'', t_category = Now, t_minutes = 60, t_priority = Some Medium\<rparr>,
              \<lparr>t_title = ''B'', t_category = Chore, t_minutes = 30, t_priority = Some Medium\<rparr>,
              \<lparr>t_title = ''D'', t_category = Future, t_minutes = 45, t_priority = Some Low\<rparr>]
             2)))
       (b_start (placed_block 32400000 []
          [\<lparr>t_title = ''C'', t_category = Now, t_minutes = 60, t_priority = Some Medium\<rparr>,
           \<lparr>t_title = ''B'', t_category = Chore, t_minutes = 30, t_priority = Some Medium\<rparr>,
           \<lparr>t_title = ''D'', t_category = Future, t_minutes = 45, t_priority = Some Low\<rparr>]
          (sweep_index
             [\<lparr>t_title = ''C'', t_category = Now, t_minutes = 60, t_priority = Some Medium\<rparr>,
              \<lparr>t_title = ''B'', t_category = Chore, t_minutes = 30, t_priority = Some Medium\<rparr>,
              \<lparr>t_title = ''D'', t_category = Future, t_minutes = 45, t_priority = Some Low\<rparr>]
             1)))"
proof -
  let ?ts = "[\<lparr>t_title = ''C'', t_category = Now, t_minutes = 60, t_priority = Some Medium\<rparr>,
              \<lparr>t_title = ''B'', t_category = Chore, t_minutes = 30, t_priority = Some Medium\<rparr>,
              \<lparr>t_title = ''D'', t_category = Future, t_minutes = 45, t_priority = Some Low\<rparr>]"
  have h: "\<forall>t \<in> set ?ts. 0 \<le> t_minutes t" by simp
  have l1: "(0 :: nat) < 1" "1 < length ?ts" "(1 :: nat) < 2" "2 < length ?ts" by simp_all
  have p0: "task_placed 32400000 [] ?ts (sweep_index ?ts 0)" by code_simp
  have p1: "task_placed 32400000 [] ?ts (sweep_index ?ts 1)" by code_simp
  have p2: "task_placed 32400000 [] ?ts (sweep_index ?ts 2)" by code_simp
  have k01: "45 \<le> t_minutes (?ts ! 1) \<longrightarrow> 45 \<le> t_minutes (?ts ! 0)" by simp
  have k12: "t_minutes (?ts ! 1) < 45 \<and> 45 \<le> t_minutes (?ts ! 2)" by simp
  show ?thesis
    using backlog_order_within_groups [OF h l1(1) l1(2) p0 p1]
      backlog_order_within_groups [OF h l1(3) l1(4) p1 p2] h k01 k12
    by (intro conjI) (simp, simp, simp, blast+)
qed

end
